theory Spec2Isabelle
  imports Complex_Main "HOL-Library.Multiset"
begin

section \<open>Values, errors and the log\<close>

text \<open>
  Client profiles and donor records are JSON objects, read in the source with
  \<^verbatim>\<open>dict.get\<close> and \<^verbatim>\<open>d['active_addons']\<close>. A JSON value is a null, a string, a
  number or a list of strings; a JSON object is a finite map from attribute names to
  values. A number of the data is the real number that its double denotes; the arithmetic
  of the source rounds (see the next section).
\<close>

datatype pyval = PyNone | PyStr string | PyNum real | PyList "string list"

type_synonym pydict = "string \<rightharpoonup> pyval"

text \<open>
  Every exception of the source is a value. \<open>Unmodelled\<close> is not an exception of the
  source: it marks the inputs on which numpy goes on in a way that the model does not
  follow (a null stored in a float array becomes NaN, a numeric string is parsed, a number
  in an array of strings becomes its decimal text). The model stops there, and no theorem
  says what the source does on such an input.
\<close>

datatype error =
  IndexError | KeyError | ValueError | TypeError | ZeroDivisionError | AttributeError
  | OverflowError | Unmodelled

datatype level = INFO | WARNING | ERROR

type_synonym log_record = "level \<times> string"

text \<open>The only effect of the methods is on the module loggers; the \<^verbatim>\<open>extra\<close>
  dictionaries of the log calls are left out.\<close>

record world =
  logger :: "log_record list"

definition log_msg :: "level \<Rightarrow> string \<Rightarrow> 'a world_scheme \<Rightarrow> 'a world_scheme" where
  "log_msg lvl msg w = w\<lparr>logger := logger w @ [(lvl, msg)]\<rparr>"

text \<open>\<^verbatim>\<open>d.get(key)\<close> and \<^verbatim>\<open>d.get(key, None)\<close>: a missing key reads as null.\<close>

definition py_get :: "pydict \<Rightarrow> string \<Rightarrow> pyval" where
  "py_get d k = (case d k of None \<Rightarrow> PyNone | Some v \<Rightarrow> v)"

text \<open>\<^verbatim>\<open>xs[:limit]\<close>: a negative bound counts from the end.\<close>

definition py_slice_to :: "'a list \<Rightarrow> int \<Rightarrow> 'a list" where
  "py_slice_to xs limit =
     (if 0 \<le> limit then take (nat limit) xs
      else take (nat (int (length xs) + limit)) xs)"

text \<open>Iterating a value, as \<^verbatim>\<open>list.extend\<close> does: a string yields its characters,
  a null or a number is not iterable.\<close>

fun py_iter :: "pyval \<Rightarrow> error + string list" where
  "py_iter (PyList xs) = Inr xs"
| "py_iter (PyStr s) = Inr (map (\<lambda>c. [c]) s)"
| "py_iter PyNone = Inl TypeError"
| "py_iter (PyNum r) = Inl TypeError"

text \<open>Running a fallible function over a list, stopping at the first error, as a list
  comprehension whose body raises does.\<close>

fun map_err :: "('a \<Rightarrow> error + 'b) \<Rightarrow> 'a list \<Rightarrow> error + 'b list" where
  "map_err f [] = Inr []"
| "map_err f (x # xs) =
     (case f x of Inl e \<Rightarrow> Inl e
      | Inr y \<Rightarrow> (case map_err f xs of Inl e \<Rightarrow> Inl e | Inr ys \<Rightarrow> Inr (y # ys)))"

section \<open>Floating point\<close>

text \<open>
  Every arithmetic operation of the source is an operation on doubles: it returns the exact
  result, rounded. The functions that compute take the rounding function \<open>fl\<close> as their
  first argument, and the theorems hold for every rounding function. \<open>round_double\<close> is
  the rounding of IEEE 754 binary64, to the nearest double and to the even one of two
  nearest: \<open>exponent x\<close> is the exponent of the binade of \<open>x\<close> (not below that of the
  subnormal numbers), \<open>pow2 (exponent x - 52)\<close> the distance between neighbouring doubles
  there. Overflow to an infinity and NaN are not modelled. \<open>exact\<close> is arithmetic
  without rounding; the worked example is evaluated with it.
\<close>

definition pow2 :: "int \<Rightarrow> real" where
  "pow2 e = (if 0 \<le> e then 2 ^ nat e else 1 / 2 ^ nat (- e))"

definition round_half_even :: "real \<Rightarrow> int" where
  "round_half_even y =
     (let f = \<lfloor>y\<rfloor>; d = y - of_int f
      in if d < 1/2 then f else if 1/2 < d then f + 1 else if even f then f else f + 1)"

fun exponent_from :: "nat \<Rightarrow> int \<Rightarrow> real \<Rightarrow> int" where
  "exponent_from 0 e x = e"
| "exponent_from (Suc n) e x = (if pow2 e \<le> \<bar>x\<bar> then e else exponent_from n (e - 1) x)"

definition exponent :: "real \<Rightarrow> int" where
  "exponent x = exponent_from 2045 1023 x"

definition round_double :: "real \<Rightarrow> real" where
  "round_double x =
     (let ulp = pow2 (exponent x - 52) in ulp * of_int (round_half_even (x / ulp)))"

definition exact :: "real \<Rightarrow> real" where
  "exact x = x"

section \<open>numpy and scipy\<close>

text \<open>Storing a value in a float array: a number too large for a double is an
  OverflowError.\<close>

fun as_double :: "pyval \<Rightarrow> error + real" where
  "as_double (PyNum r) = (if \<bar>r\<bar> < 2 ^ 1024 then Inr r else Inl OverflowError)"
| "as_double v = Inl Unmodelled"

text \<open>\<^verbatim>\<open>scipy.spatial.distance.canberra\<close> as \<^verbatim>\<open>cdist\<close> computes it: a loop that adds
  \<open>|u - v| / (|u| + |v|)\<close> for each coordinate whose denominator is positive.\<close>

definition canberra :: "(real \<Rightarrow> real) \<Rightarrow> real list \<Rightarrow> real list \<Rightarrow> real" where
  "canberra fl u v =
     fold (\<lambda>(a, b) tot.
             let snumer = \<bar>fl (a - b)\<bar>; sdenom = fl (\<bar>a\<bar> + \<bar>b\<bar>)
             in if 0 < sdenom then fl (tot + fl (snumer / sdenom)) else tot)
          (zip u v) 0"

text \<open>\<^verbatim>\<open>scipy.spatial.distance.hamming\<close>: the mean of \<^verbatim>\<open>u != v\<close>, the cells compared
  as the two arrays hold them.\<close>

definition hamming :: "(real \<Rightarrow> real) \<Rightarrow> pyval list \<Rightarrow> pyval list \<Rightarrow> real" where
  "hamming fl u v =
     fl (real (length (filter (\<lambda>(a, b). a \<noteq> b) (zip u v))) / real (length u))"

text \<open>
  \<^verbatim>\<open>np.array\<close> of a row of Python values, with no \<^verbatim>\<open>dtype\<close>: a row with a null is
  an array of objects and holds the values as they are, and so does a row of numbers; a
  row of strings is an array of fixed-width strings, which cannot hold the NUL characters
  at the end of a string.
\<close>

fun is_str :: "pyval \<Rightarrow> bool" where
  "is_str (PyStr s) = True"
| "is_str v = False"

fun is_num :: "pyval \<Rightarrow> bool" where
  "is_num (PyNum r) = True"
| "is_num v = False"

fun is_list :: "pyval \<Rightarrow> bool" where
  "is_list (PyList xs) = True"
| "is_list v = False"

definition rstrip_nul :: "string \<Rightarrow> string" where
  "rstrip_nul s = rev (dropWhile (\<lambda>c. c = CHR 0x00) (rev s))"

fun as_fixed_width :: "pyval \<Rightarrow> pyval" where
  "as_fixed_width (PyStr s) = PyStr (rstrip_nul s)"
| "as_fixed_width v = v"

definition np_array_row :: "pyval list \<Rightarrow> error + pyval list" where
  "np_array_row vs =
     (if list_ex is_list vs then Inl Unmodelled
      else if list_ex (\<lambda>v. v = PyNone) vs then Inr vs
      else if list_all is_str vs then Inr (map as_fixed_width vs)
      else if list_all is_num vs then Inr vs
      else Inl Unmodelled)"

text \<open>\<^verbatim>\<open>cdist(XA, XB, metric)\<close>: the matrix of \<open>metric (XA[i]) (XB[j])\<close>.\<close>

definition cdist :: "'a list list \<Rightarrow> 'a list list \<Rightarrow> ('a list \<Rightarrow> 'a list \<Rightarrow> real) \<Rightarrow> real list list" where
  "cdist XA XB metric = map (\<lambda>x. map (\<lambda>y. metric x y) XB) XA"

text \<open>\<^verbatim>\<open>np.argmin\<close>: a scan that keeps the first smallest entry; an empty array is a
  ValueError.\<close>

fun argmin_loop :: "real list \<Rightarrow> nat \<Rightarrow> real \<Rightarrow> nat \<Rightarrow> nat" where
  "argmin_loop [] i mp min_ind = min_ind"
| "argmin_loop (x # xs) i mp min_ind =
     (if x < mp then argmin_loop xs (Suc i) x i else argmin_loop xs (Suc i) mp min_ind)"

definition argmin :: "real list \<Rightarrow> error + nat" where
  "argmin xs = (case xs of [] \<Rightarrow> Inl ValueError | x # rest \<Rightarrow> Inr (argmin_loop rest 1 x 0))"

text \<open>\<^verbatim>\<open>a[indices]\<close> with an integer array: an index out of range is an IndexError.\<close>

definition fancy_index :: "'a list \<Rightarrow> nat list \<Rightarrow> error + 'a list" where
  "fancy_index a indices =
     map_err (\<lambda>i. if i < length a then Inr (a ! i) else Inl IndexError) indices"

text \<open>\<^verbatim>\<open>a[mask]\<close> with a boolean array of the same length.\<close>

definition boolean_index :: "'a list \<Rightarrow> bool list \<Rightarrow> 'a list" where
  "boolean_index a flags = map fst (filter snd (zip a flags))"

text \<open>
  \<^verbatim>\<open>ndarray.argsort\<close> is a parameter \<open>argsort\<close> of the functions that call it: numpy
  sorts with an introsort whose order among equal keys is not fixed. \<open>is_argsort\<close> is
  what numpy promises of it, and \<open>argsort_stable\<close> is one such function.
\<close>

definition is_argsort :: "(real list \<Rightarrow> nat list) \<Rightarrow> bool" where
  "is_argsort argsort =
     (\<forall>xs. mset (argsort xs) = mset [0..<length xs] \<and> sorted (map (\<lambda>i. xs ! i) (argsort xs)))"

definition argsort_stable :: "real list \<Rightarrow> nat list" where
  "argsort_stable xs = sort_key (\<lambda>i. xs ! i) [0..<length xs]"

section \<open>The similarity recommender\<close>

definition CATEGORICAL_FEATURES :: "string list" where
  "CATEGORICAL_FEATURES = [''geo_city'', ''locale'', ''os'']"

definition CONTINUOUS_FEATURES :: "string list" where
  "CONTINUOUS_FEATURES =
     [''subsession_length'', ''bookmark_count'', ''tab_open_count'', ''total_uri'', ''unique_tlds'']"

text \<open>
  The attributes that \<^verbatim>\<open>build_features_caches\<close> sets; they do not exist on the object
  (\<open>caches = None\<close>) when either data file is missing.
\<close>

record feature_caches =
  num_donors :: nat
  continuous_features :: "real list list"
  categorical_features :: "pyval list list"
  lr_curves_cache :: "real list"

type_synonym curve = "(real \<times> (real \<times> real)) list"

record SimilarityRecommender =
  donors_pool :: "pydict list option"
  lr_curves :: "curve option"
  caches :: "feature_caches option"

record sim_world = world +
  strategy :: SimilarityRecommender

definition build_features_caches :: "SimilarityRecommender \<Rightarrow> error + SimilarityRecommender" where
  "build_features_caches sr =
     (case donors_pool sr of None \<Rightarrow> Inr sr
      | Some pool \<Rightarrow>
     (case lr_curves sr of None \<Rightarrow> Inr sr
      | Some curves \<Rightarrow>
     (case map_err (\<lambda>d. map_err (\<lambda>k. as_double (py_get d k)) CONTINUOUS_FEATURES) pool of
        Inl e \<Rightarrow> Inl e
      | Inr cont \<Rightarrow>
          Inr (sr\<lparr>caches := Some
                 \<lparr>num_donors = length pool,
                  continuous_features = cont,
                  categorical_features = map (\<lambda>d. map (py_get d) CATEGORICAL_FEATURES) pool,
                  lr_curves_cache = map fst curves\<rparr>\<rparr>))))"

text \<open>\<^verbatim>\<open>__init__\<close>, given what the two downloads returned.\<close>

definition init :: "pydict list option \<Rightarrow> curve option \<Rightarrow> log_record list
    \<Rightarrow> (error + SimilarityRecommender) \<times> log_record list" where
  "init pool curves lg =
     (let lg1 = (if pool = None
                 then lg @ [(ERROR, ''Cannot download the donor list: taar/similarity/donors.json'')]
                 else lg);
          lg2 = (if curves = None
                 then lg1 @ [(ERROR, ''Cannot download the lr curves: taar/similarity/lr_curves.json'')]
                 else lg1)
      in (build_features_caches \<lparr>donors_pool = pool, lr_curves = curves, caches = None\<rparr>, lg2))"

definition REQUIRED_FIELDS :: "string list" where
  "REQUIRED_FIELDS = CATEGORICAL_FEATURES @ CONTINUOUS_FEATURES"

definition can_recommend :: "pydict \<Rightarrow> sim_world \<Rightarrow> bool \<times> sim_world" where
  "can_recommend client_data w =
     (if donors_pool (strategy w) = None \<or> lr_curves (strategy w) = None then (False, w)
      else
        let has_fields = list_all (\<lambda>f. py_get client_data f \<noteq> PyNone) REQUIRED_FIELDS
        in if \<not> has_fields
           then (has_fields, log_msg ERROR ''Unusable client data encountered'' w)
           else (has_fields, w))"

definition get_lr :: "(real \<Rightarrow> real) \<Rightarrow> SimilarityRecommender \<Rightarrow> real \<Rightarrow> error + real" where
  "get_lr fl sr score =
     (case caches sr of None \<Rightarrow> Inl AttributeError
      | Some c \<Rightarrow>
     (case argmin (map (\<lambda>s. \<bar>fl (score - s)\<bar>) (lr_curves_cache c)) of Inl e \<Rightarrow> Inl e
      | Inr idx \<Rightarrow>
     (case lr_curves sr of None \<Rightarrow> Inl TypeError
      | Some curves \<Rightarrow>
          if length curves \<le> idx then Inl IndexError
          else
            let numer_val = fst (snd (curves ! idx));
                denum_val = snd (snd (curves ! idx))
            in if denum_val = 0 then Inl ZeroDivisionError
               else Inr (fl (numer_val / denum_val)))))"

text \<open>
  \<^verbatim>\<open>get_similar_donors\<close> in three steps: the composite distances (a column, one row per
  donor), the likelihood ratio of each, and the ranking. A row of the column has one cell,
  as the client is the one row of \<open>XB\<close>; \<^verbatim>\<open>get_lr\<close> broadcasts that cell against the
  cached scores. The client's categorical values pass through \<^verbatim>\<open>np.array\<close> (line 132
  gives no \<^verbatim>\<open>dtype\<close>); the donors' are cached in an array of objects, as they are.
  The literal \<^verbatim>\<open>0.001\<close> is the double nearest to it.
\<close>

definition distances :: "(real \<Rightarrow> real) \<Rightarrow> SimilarityRecommender \<Rightarrow> pydict
    \<Rightarrow> error + real list list" where
  "distances fl sr client_data =
     (let client_categorical_feats = map (py_get client_data) CATEGORICAL_FEATURES;
          client_continuous_feats = map (py_get client_data) CONTINUOUS_FEATURES
      in case caches sr of None \<Rightarrow> Inl AttributeError
         | Some c \<Rightarrow>
        (case map_err as_double client_continuous_feats of Inl e \<Rightarrow> Inl e
         | Inr xb \<Rightarrow>
        (case np_array_row client_categorical_feats of Inl e \<Rightarrow> Inl e
         | Inr yb \<Rightarrow>
             let cont_features = cdist (continuous_features c) [xb] (canberra fl);
                 cat_features = cdist (categorical_features c) [yb] (hamming fl)
             in Inr (map (\<lambda>(cs, hs). map (\<lambda>(x, h). fl (fl (x + fl (1/1000)) * h)) (zip cs hs))
                         (zip cont_features cat_features)))))"

definition lrs_from_scores :: "(real \<Rightarrow> real) \<Rightarrow> SimilarityRecommender \<Rightarrow> pydict
    \<Rightarrow> error + real list" where
  "lrs_from_scores fl sr client_data =
     (case distances fl sr client_data of Inl e \<Rightarrow> Inl e
      | Inr ds \<Rightarrow>
     (case caches sr of None \<Rightarrow> Inl AttributeError
      | Some c \<Rightarrow>
          map_err (\<lambda>i. if length ds \<le> i then Inl IndexError
                        else (case ds ! i of [] \<Rightarrow> Inl IndexError
                              | score # _ \<Rightarrow> get_lr fl sr score))
                  [0..<num_donors c]))"

definition get_similar_donors :: "(real \<Rightarrow> real) \<Rightarrow> (real list \<Rightarrow> nat list)
    \<Rightarrow> SimilarityRecommender \<Rightarrow> pydict \<Rightarrow> error + (real list \<times> nat list)" where
  "get_similar_donors fl argsort sr client_data =
     (case lrs_from_scores fl sr client_data of Inl e \<Rightarrow> Inl e
      | Inr lrs \<Rightarrow>
          let indices = argsort (map uminus lrs)
          in (case fancy_index lrs indices of Inl e \<Rightarrow> Inl e
              | Inr ranked \<Rightarrow> Inr (ranked, indices)))"

text \<open>The loop of \<^verbatim>\<open>recommend\<close> over the indices of the good donors.\<close>

fun extend_loop :: "pydict list option \<Rightarrow> nat list \<Rightarrow> int \<Rightarrow> string list \<Rightarrow> error + string list" where
  "extend_loop pool [] limit recommendations = Inr recommendations"
| "extend_loop pool (good_candidate_index # rest) limit recommendations =
     (case pool of None \<Rightarrow> Inl TypeError
      | Some ds \<Rightarrow>
          if length ds \<le> good_candidate_index then Inl IndexError
          else (case (ds ! good_candidate_index) ''active_addons'' of None \<Rightarrow> Inl KeyError
                | Some v \<Rightarrow>
               (case py_iter v of Inl e \<Rightarrow> Inl e
                | Inr addons \<Rightarrow>
                    let recommendations' = recommendations @ addons
                    in if limit < int (length recommendations') then Inr recommendations'
                       else extend_loop pool rest limit recommendations')))"

definition recommend :: "(real \<Rightarrow> real) \<Rightarrow> (real list \<Rightarrow> nat list) \<Rightarrow> pydict \<Rightarrow> int
    \<Rightarrow> sim_world \<Rightarrow> (error + string list) \<times> sim_world" where
  "recommend fl argsort client_data limit w =
     (case get_similar_donors fl argsort (strategy w) client_data of Inl e \<Rightarrow> (Inl e, w)
      | Inr (donor_set_ranking, indices) \<Rightarrow>
     (case donor_set_ranking of [] \<Rightarrow> (Inl IndexError, w)
      | best # _ \<Rightarrow>
          let w1 = (if best < 2
                    then log_msg WARNING
                      ''Addons recommended with very low similarity score, perhaps donor set is unrepresentative'' w
                    else w);
              highest_scores_indices = boolean_index indices (map (\<lambda>r. 1 < r) donor_set_ranking)
          in (case extend_loop (donors_pool (strategy w)) highest_scores_indices limit [] of
                Inl e \<Rightarrow> (Inl e, w1)
              | Inr recommendations \<Rightarrow> (Inr (py_slice_to recommendations limit), w1))))"

section \<open>The aggregation loop over list objects\<close>

text \<open>
  Python lists are objects: \<^verbatim>\<open>recommendations.extend(xs)\<close> changes the list
  \<^verbatim>\<open>recommendations\<close> in place, and a donor's \<^verbatim>\<open>active_addons\<close> is a list that the
  donor pool holds by reference. To say which lists the last lines of \<^verbatim>\<open>recommend\<close>
  change, they are modelled a second time over a store of list objects: an address is an
  index into the store, \<^verbatim>\<open>[]\<close> and \<^verbatim>\<open>xs[:limit]\<close> allocate a new object, \<^verbatim>\<open>extend\<close>
  updates one. \<open>ds\<close> are the addresses of the good donors' add-on lists, in ranked order.
\<close>

type_synonym addr = nat
type_synonym store = "string list list"

definition list_new :: "store \<Rightarrow> addr \<times> store" where
  "list_new h = (length h, h @ [[]])"

definition list_extend :: "addr \<Rightarrow> addr \<Rightarrow> store \<Rightarrow> store" where
  "list_extend r d h = h[r := h ! r @ h ! d]"

definition list_slice_to :: "addr \<Rightarrow> int \<Rightarrow> store \<Rightarrow> addr \<times> store" where
  "list_slice_to r limit h = (length h, h @ [py_slice_to (h ! r) limit])"

fun extend_loop_store :: "addr list \<Rightarrow> int \<Rightarrow> addr \<Rightarrow> store \<Rightarrow> store" where
  "extend_loop_store [] limit recommendations h = h"
| "extend_loop_store (d # ds) limit recommendations h =
     (let h' = list_extend recommendations d h
      in if limit < int (length (h' ! recommendations)) then h'
         else extend_loop_store ds limit recommendations h')"

definition aggregate_store :: "addr list \<Rightarrow> int \<Rightarrow> store \<Rightarrow> addr \<times> store" where
  "aggregate_store ds limit h =
     (case list_new h of (recommendations, h1) \<Rightarrow>
        list_slice_to recommendations limit (extend_loop_store ds limit recommendations h1))"

text \<open>\<open>store_holds pool idxs ds h\<close>: the store \<open>h\<close> holds at the addresses \<open>ds\<close> the
  add-on lists of the donors \<open>idxs\<close> of the pool.\<close>

fun store_holds :: "pydict list \<Rightarrow> nat list \<Rightarrow> addr list \<Rightarrow> store \<Rightarrow> bool" where
  "store_holds pool [] [] h = True"
| "store_holds pool (i # idxs) (d # ds) h =
     (i < length pool \<and> d < length h
      \<and> (pool ! i) ''active_addons'' = Some (PyList (h ! d))
      \<and> store_holds pool idxs ds h)"
| "store_holds pool idxs ds h = False"

section \<open>The recommendation manager\<close>

text \<open>The interface of \<^verbatim>\<open>BaseRecommender\<close>: two methods that act on the world.\<close>

record 'w recommender =
  r_can_recommend :: "pydict \<Rightarrow> 'w \<Rightarrow> bool \<times> 'w"
  r_recommend :: "pydict \<Rightarrow> int \<Rightarrow> 'w \<Rightarrow> (error + string list) \<times> 'w"

record ('c, 'w) RecommendationManager =
  profile_fetcher :: "'c \<Rightarrow> pydict option"
  recommenders :: "'w recommender list"

definition similarity_recommender :: "(real \<Rightarrow> real) \<Rightarrow> (real list \<Rightarrow> nat list)
    \<Rightarrow> sim_world recommender" where
  "similarity_recommender fl argsort =
     \<lparr>r_can_recommend = can_recommend, r_recommend = recommend fl argsort\<rparr>"

text \<open>The loop of \<^verbatim>\<open>RecommendationManager.recommend\<close> over the recommenders.\<close>

fun dispatch :: "'a world_scheme recommender list \<Rightarrow> pydict \<Rightarrow> int \<Rightarrow> 'a world_scheme
    \<Rightarrow> (error + string list) \<times> 'a world_scheme" where
  "dispatch [] client_info limit w =
     (Inr [], log_msg INFO ''No recommender can recommend addons'' w)"
| "dispatch (r # rs) client_info limit w =
     (case r_can_recommend r client_info w of
        (True, w1) \<Rightarrow>
          (case r_recommend r client_info limit (log_msg INFO ''Recommender selected'' w1) of
             (Inl e, w2) \<Rightarrow> (Inl e, w2)
           | (Inr recommendations, w2) \<Rightarrow>
               (Inr recommendations,
                if recommendations = [] then log_msg INFO ''No recommendations'' w2 else w2))
      | (False, w1) \<Rightarrow> dispatch rs client_info limit w1)"

definition manager_recommend :: "('c, 'a world_scheme) RecommendationManager \<Rightarrow> 'c \<Rightarrow> int
    \<Rightarrow> 'a world_scheme \<Rightarrow> (error + string list) \<times> 'a world_scheme" where
  "manager_recommend mgr client_id limit w =
     (case profile_fetcher mgr client_id of None \<Rightarrow> (Inr [], w)
      | Some client_info \<Rightarrow> dispatch (recommenders mgr) client_info limit w)"

section \<open>Specification vocabulary\<close>

text \<open>A recommender honours the limit if every list it returns for a positive limit is
  at most that long.\<close>

definition honours_limit :: "'w recommender \<Rightarrow> bool" where
  "honours_limit r =
     (\<forall>client_data limit w recs.
        0 < limit \<longrightarrow> fst (r_recommend r client_data limit w) = Inr recs
          \<longrightarrow> int (length recs) \<le> limit)"

text \<open>
  The dispatch policy in the words of the specification: \<open>asked rs p w\<close> is the world
  after \<^verbatim>\<open>can_recommend\<close> has been called on each recommender of \<open>rs\<close> in turn,
  \<open>answer rs p w j\<close> is what the \<open>j\<close>-th recommender answers when its turn comes, and
  \<open>noting_empty\<close> adds the log line for an empty list of recommendations.
\<close>

definition asked :: "'w recommender list \<Rightarrow> pydict \<Rightarrow> 'w \<Rightarrow> 'w" where
  "asked rs client_info w = fold (\<lambda>r w'. snd (r_can_recommend r client_info w')) rs w"

definition answer :: "'w recommender list \<Rightarrow> pydict \<Rightarrow> 'w \<Rightarrow> nat \<Rightarrow> bool" where
  "answer rs client_info w j =
     fst (r_can_recommend (rs ! j) client_info (asked (take j rs) client_info w))"

definition noting_empty :: "(error + string list) \<times> 'a world_scheme
    \<Rightarrow> (error + string list) \<times> 'a world_scheme" where
  "noting_empty out =
     (fst out, if fst out = Inr [] then log_msg INFO ''No recommendations'' (snd out) else snd out)"

text \<open>
  The aggregation in the words of the specification: the add-ons of a donor record (none
  when the record holds no iterable \<^verbatim>\<open>active_addons\<close>), the add-on lists of a sequence
  of donors one after the other, and the donors whose likelihood ratio is above 1, in
  ranked order.
\<close>

definition active_addons_of :: "pydict \<Rightarrow> string list" where
  "active_addons_of d =
     (case d ''active_addons'' of None \<Rightarrow> []
      | Some v \<Rightarrow> (case py_iter v of Inl e \<Rightarrow> [] | Inr addons \<Rightarrow> addons))"

definition donor_addons :: "pydict list \<Rightarrow> nat list \<Rightarrow> string list" where
  "donor_addons pool idxs = concat (map (\<lambda>i. active_addons_of (pool ! i)) idxs)"

definition good_donors :: "(real list \<Rightarrow> nat list) \<Rightarrow> real list \<Rightarrow> nat list" where
  "good_donors argsort lrs = filter (\<lambda>i. 1 < lrs ! i) (argsort (map uminus lrs))"

text \<open>
  Repeated calls: \<open>evolves fl argsort w w'\<close> holds when the world \<open>w'\<close> is reached from
  \<open>w\<close> by any number of calls of \<^verbatim>\<open>can_recommend\<close> and \<^verbatim>\<open>recommend\<close>, with any
  arguments, and of log lines written in between.
\<close>

inductive evolves :: "(real \<Rightarrow> real) \<Rightarrow> (real list \<Rightarrow> nat list) \<Rightarrow> sim_world \<Rightarrow> sim_world \<Rightarrow> bool"
  for fl :: "real \<Rightarrow> real" and argsort :: "real list \<Rightarrow> nat list" and w :: sim_world where
  start: "evolves fl argsort w w"
| asked: "evolves fl argsort w w' \<Longrightarrow> evolves fl argsort w (snd (can_recommend client_data w'))"
| recommended:
    "evolves fl argsort w w' \<Longrightarrow> evolves fl argsort w (snd (recommend fl argsort client_data limit w'))"
| logged: "evolves fl argsort w w' \<Longrightarrow> evolves fl argsort w (log_msg lvl msg w')"


section \<open>A worked example\<close>

text \<open>A client, three donors (the last one identical to the client, the first one far
  from it) and a curve of three points.\<close>

definition ex_client :: pydict where
  "ex_client = map_of
     [(''geo_city'', PyStr ''berlin''), (''locale'', PyStr ''de''), (''os'', PyStr ''Linux''),
      (''subsession_length'', PyNum 10), (''bookmark_count'', PyNum 5),
      (''tab_open_count'', PyNum 3), (''total_uri'', PyNum 20), (''unique_tlds'', PyNum 4)]"

definition ex_donor_a :: pydict where
  "ex_donor_a = map_of
     [(''geo_city'', PyStr ''berlin''), (''locale'', PyStr ''de''), (''os'', PyStr ''Linux''),
      (''subsession_length'', PyNum 10), (''bookmark_count'', PyNum 5),
      (''tab_open_count'', PyNum 3), (''total_uri'', PyNum 20), (''unique_tlds'', PyNum 4),
      (''active_addons'', PyList [''a1'', ''a2'', ''a3''])]"

definition ex_donor_b :: pydict where
  "ex_donor_b = map_of
     [(''geo_city'', PyStr ''paris''), (''locale'', PyStr ''de''), (''os'', PyStr ''Linux''),
      (''subsession_length'', PyNum 30), (''bookmark_count'', PyNum 5),
      (''tab_open_count'', PyNum 3), (''total_uri'', PyNum 20), (''unique_tlds'', PyNum 4),
      (''active_addons'', PyList [''b1'', ''b2''])]"

definition ex_donor_c :: pydict where
  "ex_donor_c = map_of
     [(''geo_city'', PyStr ''lima''), (''locale'', PyStr ''es''), (''os'', PyStr ''Darwin''),
      (''subsession_length'', PyNum 0), (''bookmark_count'', PyNum 0),
      (''tab_open_count'', PyNum 3), (''total_uri'', PyNum 20), (''unique_tlds'', PyNum 4),
      (''active_addons'', PyList [''c1''])]"

definition ex_pool :: "pydict list" where
  "ex_pool = [ex_donor_c, ex_donor_b, ex_donor_a]"

definition ex_curve :: curve where
  "ex_curve = [(0, (9/10, 1/10)), (1/5, (3/10, 1/10)), (1, (1/10, 9/10))]"

definition ex_sr :: SimilarityRecommender where
  "ex_sr =
     \<lparr>donors_pool = Some ex_pool, lr_curves = Some ex_curve,
      caches = Some
        \<lparr>num_donors = 3,
         continuous_features = [[0, 0, 3, 20, 4], [30, 5, 3, 20, 4], [10, 5, 3, 20, 4]],
         categorical_features =
           [[PyStr ''lima'', PyStr ''es'', PyStr ''Darwin''],
            [PyStr ''paris'', PyStr ''de'', PyStr ''Linux''],
            [PyStr ''berlin'', PyStr ''de'', PyStr ''Linux'']],
         lr_curves_cache = [0, 1/5, 1]\<rparr>\<rparr>"

definition ex_world :: sim_world where
  "ex_world = \<lparr>logger = [], strategy = ex_sr\<rparr>"

text \<open>The recommender built from an empty donor list.\<close>

definition ex_empty_sr :: SimilarityRecommender where
  "ex_empty_sr =
     \<lparr>donors_pool = Some [], lr_curves = Some ex_curve,
      caches = Some \<lparr>num_donors = 0, continuous_features = [], categorical_features = [],
                     lr_curves_cache = [0, 1/5, 1]\<rparr>\<rparr>"

definition ex_empty_world :: sim_world where
  "ex_empty_world = \<lparr>logger = [], strategy = ex_empty_sr\<rparr>"

text \<open>A manager over the similarity recommender alone, whose fetcher knows client 7.\<close>

definition ex_mgr :: "(nat, sim_world) RecommendationManager" where
  "ex_mgr =
     \<lparr>profile_fetcher = (\<lambda>client_id. if client_id = 7 then Some ex_client else None),
      recommenders = [similarity_recommender exact argsort_stable]\<rparr>"

text \<open>Recommenders that only log their calls, and a manager over three of them.\<close>

definition ex_spy :: "string \<Rightarrow> bool \<Rightarrow> string list \<Rightarrow> world recommender" where
  "ex_spy name accepts addons =
     \<lparr>r_can_recommend = (\<lambda>client_data w. (accepts, log_msg INFO (name @ ''.can_recommend'') w)),
      r_recommend = (\<lambda>client_data limit w.
         (Inr (py_slice_to addons limit), log_msg INFO (name @ ''.recommend'') w))\<rparr>"

definition ex_spy_mgr :: "(nat, world) RecommendationManager" where
  "ex_spy_mgr =
     \<lparr>profile_fetcher = (\<lambda>client_id. if client_id = 7 then Some ex_client else None),
      recommenders = [ex_spy ''A'' False [''a''], ex_spy ''B'' True [], ex_spy ''C'' True [''c'']]\<rparr>"

text \<open>A store that holds the add-on lists of the three example donors.\<close>

definition ex_store :: store where
  "ex_store = [[''c1''], [''b1'', ''b2''], [''a1'', ''a2'', ''a3'']]"

text \<open>A curve of two points whose scores are doubles, and the recommender built from
  it: the score 1 is nearer to the second point, by less than a double can tell.\<close>

definition ex_round_curve :: curve where
  "ex_round_curve = [(0, (1, 4)), (1 / 2 ^ 60, (3, 1))]"

definition ex_round_sr :: SimilarityRecommender where
  "ex_round_sr =
     \<lparr>donors_pool = Some [], lr_curves = Some ex_round_curve,
      caches = Some \<lparr>num_donors = 0, continuous_features = [], categorical_features = [],
                     lr_curves_cache = [0, 1 / 2 ^ 60]\<rparr>\<rparr>"

text \<open>The recommender built from the far donor alone.\<close>

definition ex_far_sr :: SimilarityRecommender where
  "ex_far_sr =
     \<lparr>donors_pool = Some [ex_donor_c], lr_curves = Some ex_curve,
      caches = Some
        \<lparr>num_donors = 1,
         continuous_features = [[0, 0, 3, 20, 4]],
         categorical_features = [[PyStr ''lima'', PyStr ''es'', PyStr ''Darwin'']],
         lr_curves_cache = [0, 1/5, 1]\<rparr>\<rparr>"

definition ex_far_world :: sim_world where
  "ex_far_world = \<lparr>logger = [], strategy = ex_far_sr\<rparr>"


text \<open>A client and a single donor that agree on all eight features, with a city name that
  ends in a NUL character, and a curve that gives the likelihood ratio 9 at the
  distance 0 and 1/9 near the distance 1/2048.\<close>

definition ex_nul_city :: string where
  "ex_nul_city = ''berlin'' @ [CHR 0x00]"

definition ex_nul_client :: pydict where
  "ex_nul_client = ex_client(''geo_city'' \<mapsto> PyStr ex_nul_city)"

definition ex_nul_donor :: pydict where
  "ex_nul_donor = ex_donor_a(''geo_city'' \<mapsto> PyStr ex_nul_city)"

definition ex_nul_curve :: curve where
  "ex_nul_curve = [(0, (9, 1)), (1/2048, (1, 9))]"

definition ex_nul_sr :: SimilarityRecommender where
  "ex_nul_sr =
     \<lparr>donors_pool = Some [ex_nul_donor], lr_curves = Some ex_nul_curve,
      caches = Some
        \<lparr>num_donors = 1,
         continuous_features = [[10, 5, 3, 20, 4]],
         categorical_features = [[PyStr ex_nul_city, PyStr ''de'', PyStr ''Linux'']],
         lr_curves_cache = [0, 1/2048]\<rparr>\<rparr>"

definition ex_nul_world :: sim_world where
  "ex_nul_world = \<lparr>logger = [], strategy = ex_nul_sr\<rparr>"

section \<open>Properties\<close>

subsection \<open>Library functions\<close>

lemma py_get_PyNone_iff: "py_get d k = PyNone \<longleftrightarrow> d k = None \<or> d k = Some PyNone"
  by (simp add: py_get_def split: option.splits)

lemma map_err_Inr_length: "map_err f xs = Inr ys \<Longrightarrow> length ys = length xs"
  by (induction xs arbitrary: ys) (auto split: sum.splits)

lemma map_err_Inr_nth:
  "map_err f xs = Inr ys \<Longrightarrow> i < length xs \<Longrightarrow> f (xs ! i) = Inr (ys ! i)"
proof (induction xs arbitrary: ys i)
  case Nil
  then show ?case by simp
next
  case (Cons x xs)
  then show ?case by (cases i) (auto split: sum.splits)
qed

lemma fancy_index_Inr:
  "fancy_index a indices = Inr b
   \<Longrightarrow> b = map (\<lambda>i. a ! i) indices \<and> (\<forall>i \<in> set indices. i < length a)"
  unfolding fancy_index_def
  by (induction indices arbitrary: b) (auto split: sum.splits if_splits)

lemma fancy_index_total:
  "\<forall>i \<in> set indices. i < length a \<Longrightarrow> fancy_index a indices = Inr (map (\<lambda>i. a ! i) indices)"
  unfolding fancy_index_def
  by (induction indices) auto

lemma boolean_index_map: "boolean_index xs (map P xs) = filter P xs"
  unfolding boolean_index_def
  by (induction xs) auto

lemma py_slice_to_length: "0 \<le> limit \<Longrightarrow> int (length (py_slice_to xs limit)) \<le> limit"
  by (simp add: py_slice_to_def)


lemma argmin_loop_spec:
  assumes "min_ind < length pre" "mp = pre ! min_ind" "\<forall>j<length pre. mp \<le> pre ! j"
    "\<forall>j<min_ind. mp < pre ! j" "i = length pre"
  shows "argmin_loop xs i mp min_ind < length (pre @ xs)
       \<and> (\<forall>j<length (pre @ xs). (pre @ xs) ! argmin_loop xs i mp min_ind \<le> (pre @ xs) ! j)
       \<and> (\<forall>j<argmin_loop xs i mp min_ind. (pre @ xs) ! argmin_loop xs i mp min_ind < (pre @ xs) ! j)"
  using assms
proof (induction xs arbitrary: pre mp min_ind i)
  case Nil
  then show ?case by simp
next
  case (Cons x xs)
  have app: "pre @ x # xs = (pre @ [x]) @ xs" by simp
  show ?case
  proof (cases "x < mp")
    case True
    have "argmin_loop xs (Suc i) x i < length ((pre @ [x]) @ xs)
       \<and> (\<forall>j<length ((pre @ [x]) @ xs). ((pre @ [x]) @ xs) ! argmin_loop xs (Suc i) x i \<le> ((pre @ [x]) @ xs) ! j)
       \<and> (\<forall>j<argmin_loop xs (Suc i) x i. ((pre @ [x]) @ xs) ! argmin_loop xs (Suc i) x i < ((pre @ [x]) @ xs) ! j)"
    proof (rule Cons.IH)
      show "i < length (pre @ [x])" using Cons.prems(5) by simp
      show "x = (pre @ [x]) ! i" using Cons.prems(5) by simp
      show "\<forall>j<length (pre @ [x]). x \<le> (pre @ [x]) ! j"
        using True Cons.prems(3) by (auto simp: nth_append less_Suc_eq intro: less_imp_le order.trans)
      show "\<forall>j<i. x < (pre @ [x]) ! j"
        using True Cons.prems(3,5) by (auto simp: nth_append intro: less_le_trans)
      show "Suc i = length (pre @ [x])" using Cons.prems(5) by simp
    qed
    then show ?thesis using True unfolding app by simp
  next
    case False
    have "argmin_loop xs (Suc i) mp min_ind < length ((pre @ [x]) @ xs)
       \<and> (\<forall>j<length ((pre @ [x]) @ xs). ((pre @ [x]) @ xs) ! argmin_loop xs (Suc i) mp min_ind \<le> ((pre @ [x]) @ xs) ! j)
       \<and> (\<forall>j<argmin_loop xs (Suc i) mp min_ind. ((pre @ [x]) @ xs) ! argmin_loop xs (Suc i) mp min_ind < ((pre @ [x]) @ xs) ! j)"
    proof (rule Cons.IH)
      show "min_ind < length (pre @ [x])" using Cons.prems(1) by simp
      show "mp = (pre @ [x]) ! min_ind" using Cons.prems(1,2) by (simp add: nth_append)
      show "\<forall>j<length (pre @ [x]). mp \<le> (pre @ [x]) ! j"
        using False Cons.prems(3) by (auto simp: nth_append less_Suc_eq)
      show "\<forall>j<min_ind. mp < (pre @ [x]) ! j"
        using Cons.prems(1,4) by (auto simp: nth_append)
      show "Suc i = length (pre @ [x])" using Cons.prems(5) by simp
    qed
    then show ?thesis using False unfolding app by simp
  qed
qed

lemma argmin_spec:
  assumes "ys \<noteq> []"
  shows "\<exists>k. argmin ys = Inr k \<and> k < length ys \<and> (\<forall>j<length ys. ys ! k \<le> ys ! j)
             \<and> (\<forall>j<k. ys ! k < ys ! j)"
proof -
  from assms obtain y rest where ys: "ys = y # rest" by (cases ys) auto
  have "argmin_loop rest (Suc 0) y 0 < length ([y] @ rest)
       \<and> (\<forall>j<length ([y] @ rest). ([y] @ rest) ! argmin_loop rest (Suc 0) y 0 \<le> ([y] @ rest) ! j)
       \<and> (\<forall>j<argmin_loop rest (Suc 0) y 0. ([y] @ rest) ! argmin_loop rest (Suc 0) y 0 < ([y] @ rest) ! j)"
    by (rule argmin_loop_spec) auto
  then show ?thesis unfolding ys argmin_def by simp
qed

lemma map_err_map: "map_err f (map g xs) = map_err (\<lambda>x. f (g x)) xs"
  by (induction xs) (auto split: sum.splits)

lemma is_argsort_stable: "is_argsort argsort_stable"
  unfolding is_argsort_def argsort_stable_def by simp

lemma donor_addons_Cons:
  "donor_addons pool (i # idxs) = active_addons_of (pool ! i) @ donor_addons pool idxs"
  by (simp add: donor_addons_def)


subsection \<open>The example, evaluated\<close>

lemmas ex_defs = ex_client_def ex_donor_a_def ex_donor_b_def ex_donor_c_def ex_pool_def
  ex_curve_def CATEGORICAL_FEATURES_def CONTINUOUS_FEATURES_def REQUIRED_FIELDS_def py_get_def

lemma ex_init: "init (Some ex_pool) (Some ex_curve) [] = (Inr ex_sr, [])"
  by (simp add: init_def build_features_caches_def ex_sr_def ex_defs)

lemma ex_empty_init: "init (Some []) (Some ex_curve) [] = (Inr ex_empty_sr, [])"
  by (simp add: init_def build_features_caches_def ex_empty_sr_def ex_curve_def)

lemma ex_distances: "distances exact ex_sr ex_client = Inr [[2001/1000], [167/1000], [0]]"
  by (simp add: distances_def ex_sr_def ex_defs cdist_def canberra_def hamming_def
      np_array_row_def rstrip_nul_def exact_def)

lemma ex_lrs: "lrs_from_scores exact ex_sr ex_client = Inr [1/9, 3, 9]"
  by (simp add: lrs_from_scores_def ex_distances)
     (simp add: ex_sr_def get_lr_def argmin_def ex_curve_def upt_rec exact_def)

lemma ex_argsort: "argsort_stable [- (1/9), -3, -9 :: real] = [2, 1, 0]"
  by (simp add: argsort_stable_def upt_rec)

lemma ex_similar:
  "get_similar_donors exact argsort_stable ex_sr ex_client = Inr ([9, 3, 1/9], [2, 1, 0])"
  by (simp add: get_similar_donors_def ex_lrs ex_argsort fancy_index_def)

lemma ex_recommend:
  "strategy w = ex_sr
   \<Longrightarrow> recommend exact argsort_stable ex_client 4 w = (Inr [''a1'', ''a2'', ''a3'', ''b1''], w)"
  by (simp add: recommend_def ex_similar boolean_index_def)
     (simp add: ex_sr_def ex_pool_def ex_donor_a_def ex_donor_b_def py_slice_to_def)

lemma ex_can_recommend: "strategy w = ex_sr \<Longrightarrow> can_recommend ex_client w = (True, w)"
  by (simp add: can_recommend_def ex_sr_def ex_defs)

lemma ex_manager_recommend:
  "manager_recommend ex_mgr 7 4 ex_world =
     (Inr [''a1'', ''a2'', ''a3'', ''b1''], log_msg INFO ''Recommender selected'' ex_world)"
  by (simp add: manager_recommend_def ex_mgr_def similarity_recommender_def ex_can_recommend
      ex_recommend ex_world_def log_msg_def)

lemma ex_empty_lrs: "lrs_from_scores fl ex_empty_sr ex_client = Inr []"
  by (simp add: lrs_from_scores_def distances_def ex_empty_sr_def ex_defs cdist_def
      np_array_row_def rstrip_nul_def)

lemma ex_empty_recommend:
  "strategy w = ex_empty_sr
   \<Longrightarrow> recommend fl argsort_stable ex_client limit w = (Inl IndexError, w)"
  by (simp add: recommend_def get_similar_donors_def ex_empty_lrs argsort_stable_def
      fancy_index_def)

lemma ex_empty_can_recommend:
  "strategy w = ex_empty_sr \<Longrightarrow> can_recommend ex_client w = (True, w)"
  by (simp add: can_recommend_def ex_empty_sr_def ex_defs)

lemma ex_spy_run:
  "manager_recommend ex_spy_mgr 7 4 \<lparr>logger = []\<rparr> =
     (Inr [], \<lparr>logger = [(INFO, ''A.can_recommend''), (INFO, ''B.can_recommend''),
                        (INFO, ''Recommender selected''), (INFO, ''B.recommend''),
                        (INFO, ''No recommendations'')]\<rparr>)"
  by (simp add: manager_recommend_def ex_spy_mgr_def ex_spy_def log_msg_def py_slice_to_def)

lemma ex_spy_unknown: "manager_recommend ex_spy_mgr 8 4 \<lparr>logger = []\<rparr> = (Inr [], \<lparr>logger = []\<rparr>)"
  by (simp add: manager_recommend_def ex_spy_mgr_def)




subsection \<open>The similarity recommender\<close>

lemma recommend_Inr_slice:
  "fst (recommend fl argsort client_data limit w) = Inr recs
   \<Longrightarrow> \<exists>working. recs = py_slice_to working limit"
  unfolding recommend_def
  by (auto simp: Let_def split: sum.splits prod.splits list.splits)

lemma recommend_length:
  "fst (recommend fl argsort client_data limit w) = Inr recs \<Longrightarrow> 0 \<le> limit
   \<Longrightarrow> int (length recs) \<le> limit"
  using recommend_Inr_slice py_slice_to_length by blast

lemma similarity_honours_limit: "honours_limit (similarity_recommender fl argsort)"
  unfolding honours_limit_def similarity_recommender_def
  using recommend_length by auto

lemma dispatch_length:
  "\<forall>r \<in> set rs. honours_limit r \<Longrightarrow> 0 < limit
   \<Longrightarrow> fst (dispatch rs client_info limit w) = Inr recs \<Longrightarrow> int (length recs) \<le> limit"
proof (induction rs arbitrary: w)
  case Nil
  then show ?case by simp
next
  case (Cons r rs)
  obtain b w1 where c: "r_can_recommend r client_info w = (b, w1)"
    by (cases "r_can_recommend r client_info w")
  show ?case
  proof (cases b)
    case False
    with c Cons show ?thesis by simp
  next
    case True
    obtain res w2 where
      rr: "r_recommend r client_info limit (log_msg INFO ''Recommender selected'' w1) = (res, w2)"
      by (cases "r_recommend r client_info limit (log_msg INFO ''Recommender selected'' w1)")
    from Cons.prems(3) c True rr have "res = Inr recs"
      by (cases res) auto
    moreover have "honours_limit r" using Cons.prems(1) by simp
    ultimately show ?thesis using rr Cons.prems(2) unfolding honours_limit_def
      by (metis fst_conv)
  qed
qed

lemma manager_recommend_length:
  "\<forall>r \<in> set (recommenders mgr). honours_limit r \<Longrightarrow> 0 < limit
   \<Longrightarrow> fst (manager_recommend mgr client_id limit w) = Inr recs \<Longrightarrow> int (length recs) \<le> limit"
  unfolding manager_recommend_def
  by (auto split: option.splits dest: dispatch_length)

lemma init_Inr:
  assumes "fst (init (Some pool) (Some curves) lg) = Inr sr"
  shows "donors_pool sr = Some pool \<and> lr_curves sr = Some curves
       \<and> (\<exists>c. caches sr = Some c \<and> num_donors c = length pool
            \<and> map_err (\<lambda>d. map_err (\<lambda>k. as_double (py_get d k)) CONTINUOUS_FEATURES) pool
                = Inr (continuous_features c)
            \<and> categorical_features c = map (\<lambda>d. map (py_get d) CATEGORICAL_FEATURES) pool
            \<and> lr_curves_cache c = map fst curves)"
  using assms unfolding init_def build_features_caches_def
  by (auto simp: Let_def split: sum.splits)

lemma extend_loop_prefix:
  "extend_loop (Some pool) idxs limit acc = Inr out \<Longrightarrow>
   \<exists>k\<le>length idxs. out = acc @ donor_addons pool (take k idxs)
     \<and> (k < length idxs \<longrightarrow> limit < int (length out))
     \<and> (\<forall>j. 0 < j \<and> j < k \<longrightarrow> int (length (acc @ donor_addons pool (take j idxs))) \<le> limit)"
proof (induction idxs arbitrary: acc)
  case Nil
  then show ?case by (simp add: donor_addons_def)
next
  case (Cons i idxs)
  from Cons.prems obtain v addons where
    i: "i < length pool" and v: "(pool ! i) ''active_addons'' = Some v"
    and it: "py_iter v = Inr addons"
    by (auto split: if_splits option.splits sum.splits)
  have ad: "active_addons_of (pool ! i) = addons"
    by (simp add: active_addons_of_def v it)
  show ?case
  proof (cases "limit < int (length (acc @ addons))")
    case True
    with Cons.prems i v it have "out = acc @ addons" by simp
    with True ad have "out = acc @ donor_addons pool (take 1 (i # idxs))
      \<and> (1 < length (i # idxs) \<longrightarrow> limit < int (length out))
      \<and> (\<forall>j. 0 < j \<and> j < (1::nat) \<longrightarrow> int (length (acc @ donor_addons pool (take j (i # idxs)))) \<le> limit)"
      by (simp add: donor_addons_def)
    then show ?thesis by (intro exI [of _ 1]) auto
  next
    case False
    with Cons.prems i v it have "extend_loop (Some pool) idxs limit (acc @ addons) = Inr out"
      by (simp add: Let_def)
    from Cons.IH [OF this] obtain k where
      k: "k \<le> length idxs" "out = (acc @ addons) @ donor_addons pool (take k idxs)"
         "k < length idxs \<longrightarrow> limit < int (length out)"
         "\<forall>j. 0 < j \<and> j < k \<longrightarrow> int (length ((acc @ addons) @ donor_addons pool (take j idxs))) \<le> limit"
      by blast
    have "\<forall>j. 0 < j \<and> j < Suc k \<longrightarrow> int (length (acc @ donor_addons pool (take j (i # idxs)))) \<le> limit"
    proof (intro allI impI)
      fix j assume j: "0 < j \<and> j < Suc k"
      then obtain j' where j': "j = Suc j'" by (cases j) auto
      show "int (length (acc @ donor_addons pool (take j (i # idxs)))) \<le> limit"
      proof (cases "j' = 0")
        case True
        with False j' ad show ?thesis by (simp add: donor_addons_def)
      next
        case False
        with j j' k(4) have "int (length ((acc @ addons) @ donor_addons pool (take j' idxs))) \<le> limit"
          by simp
        with j' ad show ?thesis by (simp add: donor_addons_Cons)
      qed
    qed
    with k(1,2,3) ad have "Suc k \<le> length (i # idxs) \<and> out = acc @ donor_addons pool (take (Suc k) (i # idxs))
      \<and> (Suc k < length (i # idxs) \<longrightarrow> limit < int (length out))
      \<and> (\<forall>j. 0 < j \<and> j < Suc k \<longrightarrow> int (length (acc @ donor_addons pool (take j (i # idxs)))) \<le> limit)"
      by (simp add: donor_addons_Cons)
    then show ?thesis by blast
  qed
qed


lemma lrs_from_scores_length:
  "lrs_from_scores fl sr client_data = Inr lrs \<Longrightarrow> caches sr = Some c \<Longrightarrow> length lrs = num_donors c"
  unfolding lrs_from_scores_def
  by (auto split: sum.splits dest: map_err_Inr_length)

lemma recommend_Inr_loop:
  assumes "fst (recommend fl argsort client_data limit w) = Inr recs"
  shows "\<exists>lrs out. lrs_from_scores fl (strategy w) client_data = Inr lrs
           \<and> (\<forall>i \<in> set (argsort (map uminus lrs)). i < length lrs)
           \<and> argsort (map uminus lrs) \<noteq> []
           \<and> extend_loop (donors_pool (strategy w)) (good_donors argsort lrs) limit [] = Inr out
           \<and> recs = py_slice_to out limit"
proof -
  from assms obtain ranked indices where
    g: "get_similar_donors fl argsort (strategy w) client_data = Inr (ranked, indices)"
    unfolding recommend_def by (auto split: sum.splits)
  then obtain lrs where lrs: "lrs_from_scores fl (strategy w) client_data = Inr lrs"
    and ind: "indices = argsort (map uminus lrs)"
    and fi: "fancy_index lrs indices = Inr ranked"
    unfolding get_similar_donors_def by (auto simp: Let_def split: sum.splits)
  from fancy_index_Inr [OF fi] have ranked: "ranked = map (\<lambda>i. lrs ! i) indices"
    and bound: "\<forall>i \<in> set indices. i < length lrs" by auto
  have "map (\<lambda>r. 1 < r) ranked = map (\<lambda>i. 1 < lrs ! i) indices"
    by (simp add: ranked)
  then have sel: "boolean_index indices (map (\<lambda>r. 1 < r) ranked) = good_donors argsort lrs"
    by (simp add: boolean_index_map good_donors_def ind)
  from assms g have ne: "ranked \<noteq> []"
    unfolding recommend_def by (auto split: list.splits)
  with assms g sel obtain out where
    "extend_loop (donors_pool (strategy w)) (good_donors argsort lrs) limit [] = Inr out"
    "recs = py_slice_to out limit"
    unfolding recommend_def by (auto simp: Let_def split: list.splits sum.splits)
  with lrs bound ind ne ranked show ?thesis by auto
qed



subsection \<open>The recommendation manager\<close>

lemma asked_Cons: "asked (r # rs) p w = asked rs p (snd (r_can_recommend r p w))"
  by (simp add: asked_def)

lemma answer_0: "answer (r # rs) p w 0 = fst (r_can_recommend r p w)"
  by (simp add: answer_def asked_def)

lemma answer_Suc: "answer (r # rs) p w (Suc j) = answer rs p (snd (r_can_recommend r p w)) j"
  by (simp add: answer_def asked_def)

lemma dispatch_accept:
  "fst (r_can_recommend r p w) \<Longrightarrow>
   dispatch (r # rs) p limit w =
     noting_empty (r_recommend r p limit (log_msg INFO ''Recommender selected'' (snd (r_can_recommend r p w))))"
  by (cases "r_can_recommend r p w")
     (auto simp: noting_empty_def split: prod.splits sum.splits)

lemma dispatch_reject:
  "\<not> fst (r_can_recommend r p w) \<Longrightarrow>
   dispatch (r # rs) p limit w = dispatch rs p limit (snd (r_can_recommend r p w))"
  by (cases "r_can_recommend r p w") auto

lemma dispatch_selected:
  "k < length rs \<Longrightarrow> \<forall>j<k. \<not> answer rs p w j \<Longrightarrow> answer rs p w k \<Longrightarrow>
   dispatch rs p limit w =
     noting_empty (r_recommend (rs ! k) p limit
       (log_msg INFO ''Recommender selected'' (asked (take (Suc k) rs) p w)))"
proof (induction rs arbitrary: w k)
  case Nil
  then show ?case by simp
next
  case (Cons r rs)
  show ?case
  proof (cases k)
    case 0
    with Cons.prems(3) have "fst (r_can_recommend r p w)" by (simp add: answer_0)
    then show ?thesis using 0 by (simp add: dispatch_accept asked_def del: dispatch.simps)
  next
    case (Suc k')
    with Cons.prems(2) have "\<not> answer (r # rs) p w 0" by blast
    then have rej: "\<not> fst (r_can_recommend r p w)" by (simp add: answer_0)
    have "dispatch rs p limit (snd (r_can_recommend r p w)) =
        noting_empty (r_recommend (rs ! k') p limit
          (log_msg INFO ''Recommender selected'' (asked (take (Suc k') rs) p (snd (r_can_recommend r p w)))))"
    proof (rule Cons.IH)
      show "k' < length rs" using Cons.prems(1) Suc by simp
      show "\<forall>j<k'. \<not> answer rs p (snd (r_can_recommend r p w)) j"
        using Cons.prems(2) Suc by (auto simp: answer_Suc [symmetric])
      show "answer rs p (snd (r_can_recommend r p w)) k'"
        using Cons.prems(3) Suc by (simp add: answer_Suc)
    qed
    then show ?thesis using rej Suc by (simp add: dispatch_reject asked_Cons del: dispatch.simps)
  qed
qed

lemma dispatch_none:
  "\<forall>j<length rs. \<not> answer rs p w j \<Longrightarrow>
   dispatch rs p limit w = (Inr [], log_msg INFO ''No recommender can recommend addons'' (asked rs p w))"
proof (induction rs arbitrary: w)
  case Nil
  then show ?case by (simp add: asked_def)
next
  case (Cons r rs)
  from Cons.prems have "\<not> answer (r # rs) p w 0" by auto
  then have rej: "\<not> fst (r_can_recommend r p w)" by (simp add: answer_0)
  have "\<forall>j<length rs. \<not> answer rs p (snd (r_can_recommend r p w)) j"
    using Cons.prems by (auto simp: answer_Suc [symmetric])
  from Cons.IH [OF this] show ?case using rej by (simp add: dispatch_reject asked_Cons del: dispatch.simps)
qed

subsection \<open>The store\<close>

lemma store_holds_addrs: "store_holds pool idxs ds h \<Longrightarrow> \<forall>d \<in> set ds. d < length h"
  by (induction pool idxs ds h rule: store_holds.induct) auto

lemma store_holds_frame:
  "store_holds pool idxs ds h \<Longrightarrow> length h \<le> length h' \<Longrightarrow> \<forall>d \<in> set ds. h' ! d = h ! d
   \<Longrightarrow> store_holds pool idxs ds h'"
  by (induction pool idxs ds h rule: store_holds.induct) auto

lemma extend_loop_store_frame:
  "length (extend_loop_store ds limit r h) = length h
   \<and> (\<forall>a<length h. a \<noteq> r \<longrightarrow> extend_loop_store ds limit r h ! a = h ! a)"
proof (induction ds arbitrary: h)
  case Nil
  then show ?case by simp
next
  case (Cons d ds)
  have "length (list_extend r d h) = length h
      \<and> (\<forall>a<length h. a \<noteq> r \<longrightarrow> list_extend r d h ! a = h ! a)"
    by (simp add: list_extend_def)
  with Cons.IH [of "list_extend r d h"] show ?case by (simp add: Let_def)
qed

lemma extend_loop_store_refines:
  "store_holds pool idxs ds h \<Longrightarrow> r < length h \<Longrightarrow> r \<notin> set ds \<Longrightarrow>
   extend_loop (Some pool) idxs limit (h ! r) = Inr (extend_loop_store ds limit r h ! r)"
proof (induction idxs arbitrary: ds h)
  case Nil
  then have "ds = []" by (cases ds) auto
  then show ?case by simp
next
  case (Cons i idxs)
  from Cons.prems(1) obtain d ds' where ds: "ds = d # ds'" by (cases ds) auto
  from Cons.prems(1) ds have i: "i < length pool" and d: "d < length h"
    and v: "(pool ! i) ''active_addons'' = Some (PyList (h ! d))"
    and rest: "store_holds pool idxs ds' h"
    by auto
  let ?h = "list_extend r d h"
  from Cons.prems(3) ds have rd: "r \<noteq> d" and rds: "r \<notin> set ds'" by auto
  have hr: "?h ! r = h ! r @ h ! d" using Cons.prems(2) by (simp add: list_extend_def)
  have len: "length ?h = length h" by (simp add: list_extend_def)
  have fr: "\<forall>a \<in> set ds'. ?h ! a = h ! a"
  proof
    fix a assume "a \<in> set ds'"
    with rds have "r \<noteq> a" by auto
    then show "?h ! a = h ! a" by (simp add: list_extend_def)
  qed
  have rest': "store_holds pool idxs ds' ?h"
    using store_holds_frame [OF rest _ fr] len by simp
  show ?case
  proof (cases "limit < int (length (h ! r @ h ! d))")
    case True
    then show ?thesis using i v hr ds by (simp add: Let_def)
  next
    case False
    from Cons.prems(2) len have "r < length ?h" by simp
    from Cons.IH [OF rest' this rds] hr
    have "extend_loop (Some pool) idxs limit (h ! r @ h ! d)
            = Inr (extend_loop_store ds' limit r ?h ! r)"
      by simp
    then show ?thesis using False i v hr ds by (simp add: Let_def)
  qed
qed

lemma aggregate_store_frame:
  assumes "aggregate_store ds limit h = (out, h')"
  shows "length h < out \<and> out < length h' \<and> (\<forall>a<length h. h' ! a = h ! a)"
proof -
  let ?h2 = "extend_loop_store ds limit (length h) (h @ [[]])"
  from assms have out: "out = length ?h2" and h': "h' = ?h2 @ [py_slice_to (?h2 ! length h) limit]"
    by (auto simp: aggregate_store_def list_new_def list_slice_to_def)
  from extend_loop_store_frame [of ds limit "length h" "h @ [[]]"]
  have l: "length ?h2 = Suc (length h)"
    and f: "\<forall>a<Suc (length h). a \<noteq> length h \<longrightarrow> ?h2 ! a = (h @ [[]]) ! a" by auto
  have "\<forall>a<length h. h' ! a = h ! a"
    using f l by (auto simp: h' nth_append)
  with out l h' show ?thesis by simp
qed

lemma aggregate_store_refines:
  assumes "aggregate_store ds limit h = (out, h')"
    and "store_holds pool idxs ds h"
    and "extend_loop (Some pool) idxs limit [] = Inr working"
  shows "h' ! out = py_slice_to working limit"
proof -
  let ?r = "length h"
  let ?h1 = "h @ [[]]"
  let ?h2 = "extend_loop_store ds limit ?r ?h1"
  from assms(1) have out: "out = length ?h2" and h': "h' = ?h2 @ [py_slice_to (?h2 ! ?r) limit]"
    by (auto simp: aggregate_store_def list_new_def list_slice_to_def)
  from store_holds_addrs [OF assms(2)] have addrs: "\<forall>d \<in> set ds. d < length h" .
  then have fr: "\<forall>d \<in> set ds. ?h1 ! d = h ! d" by (simp add: nth_append)
  have holds1: "store_holds pool idxs ds ?h1"
    using store_holds_frame [OF assms(2) _ fr] by simp
  have notin: "?r \<notin> set ds" using addrs by auto
  have "extend_loop (Some pool) idxs limit (?h1 ! ?r) = Inr (?h2 ! ?r)"
    using extend_loop_store_refines [OF holds1 _ notin] by simp
  with assms(3) have "?h2 ! ?r = working" by simp
  then show ?thesis by (simp add: h' out)
qed

lemma ex_aggregate_store:
  "aggregate_store [2, 1] 2 ex_store =
     (4, [[''c1''], [''b1'', ''b2''], [''a1'', ''a2'', ''a3''], [''a1'', ''a2'', ''a3''], [''a1'', ''a2'']])"
  by (simp add: aggregate_store_def list_new_def list_slice_to_def list_extend_def ex_store_def
      py_slice_to_def)

lemma ex_store_holds: "store_holds ex_pool [2, 1] [2, 1] ex_store"
  by (simp add: ex_store_def ex_pool_def ex_donor_a_def ex_donor_b_def)

lemma ex_extend_loop: "extend_loop (Some ex_pool) [2, 1] 2 [] = Inr [''a1'', ''a2'', ''a3'']"
  by (simp add: ex_pool_def ex_donor_a_def ex_donor_b_def)

lemma ex_empty_manager_recommend:
  "fst (manager_recommend ex_mgr 7 10 ex_empty_world) = Inl IndexError"
  by (simp add: manager_recommend_def ex_mgr_def similarity_recommender_def
      ex_empty_can_recommend ex_empty_recommend ex_empty_world_def log_msg_def)

subsection \<open>Rounding to a double\<close>

lemma pow2_powr: "pow2 e = 2 powr (real_of_int e)"
  by (simp add: pow2_def powr_real_of_int field_simps)

lemma pow2_mono: "a \<le> b \<Longrightarrow> pow2 a \<le> pow2 b"
  by (simp add: pow2_powr)

lemma exponent_from_eq:
  "pow2 e \<le> \<bar>x\<bar> \<Longrightarrow> \<bar>x\<bar> < pow2 (e + 1) \<Longrightarrow> e \<le> c \<Longrightarrow> c - int n \<le> e
   \<Longrightarrow> exponent_from n c x = e"
proof (induction n arbitrary: c)
  case 0
  then show ?case by simp
next
  case (Suc n)
  show ?case
  proof (cases "pow2 c \<le> \<bar>x\<bar>")
    case True
    have "c = e"
    proof (rule ccontr)
      assume "c \<noteq> e"
      with Suc.prems(3) have "e + 1 \<le> c" by simp
      then have "pow2 (e + 1) \<le> pow2 c" by (rule pow2_mono)
      with True Suc.prems(2) show False by simp
    qed
    with True show ?thesis by simp
  next
    case False
    with Suc.prems(1) have "c \<noteq> e" by auto
    with Suc.prems(3) have "e \<le> c - 1" by simp
    moreover from Suc.prems(4) have "c - 1 - int n \<le> e" by simp
    ultimately have "exponent_from n (c - 1) x = e"
      using Suc.prems(1,2) by (intro Suc.IH)
    with False show ?thesis by simp
  qed
qed

lemma exponent_eq:
  "pow2 e \<le> \<bar>x\<bar> \<Longrightarrow> \<bar>x\<bar> < pow2 (e + 1) \<Longrightarrow> - 1022 \<le> e \<Longrightarrow> e \<le> 1023 \<Longrightarrow> exponent x = e"
  unfolding exponent_def by (rule exponent_from_eq) auto

lemma round_double_1: "round_double 1 = 1"
proof -
  have "exponent 1 = 0" by (rule exponent_eq) (simp_all add: pow2_def)
  then show ?thesis by (simp add: round_double_def pow2_def round_half_even_def Let_def)
qed

lemma round_double_quarter: "round_double (1/4) = 1/4"
proof -
  have "exponent (1/4) = - 2" by (rule exponent_eq) (simp_all add: pow2_def)
  then show ?thesis by (simp add: round_double_def pow2_def round_half_even_def Let_def)
qed

lemma round_double_below_1: "round_double (1 - 1 / 2 ^ 60) = 1"
proof -
  have "exponent (1 - 1 / 2 ^ 60) = - 1" by (rule exponent_eq) (simp_all add: pow2_def)
  then show ?thesis by (simp add: round_double_def pow2_def round_half_even_def Let_def)
qed


lemma round_double_below_1_nf:
  "round_double (1152921504606846975 / 1152921504606846976) = 1"
  using round_double_below_1 by simp

lemma ex_round_init: "init (Some []) (Some ex_round_curve) [] = (Inr ex_round_sr, [])"
  by (simp add: init_def build_features_caches_def ex_round_sr_def ex_round_curve_def)

lemma ex_round_get_lr: "get_lr round_double ex_round_sr 1 = Inr (1/4)"
  by (simp add: get_lr_def ex_round_sr_def ex_round_curve_def argmin_def
      round_double_1 round_double_below_1_nf round_double_quarter)

lemma ex_far_init: "init (Some [ex_donor_c]) (Some ex_curve) [] = (Inr ex_far_sr, [])"
  by (simp add: init_def build_features_caches_def ex_far_sr_def ex_defs)

lemma ex_far_lrs: "lrs_from_scores exact ex_far_sr ex_client = Inr [1/9]"
  by (simp add: lrs_from_scores_def distances_def ex_far_sr_def ex_defs cdist_def canberra_def
      hamming_def np_array_row_def rstrip_nul_def exact_def get_lr_def argmin_def)

lemma recommend_addons_from_good_donors:
  assumes "fst (init (Some pool) (Some curves) lg) = Inr (strategy w)"
    and "fst (recommend fl argsort client_data limit w) = Inr recs"
  shows "\<exists>lrs. lrs_from_scores fl (strategy w) client_data = Inr lrs \<and> length lrs = length pool
          \<and> (\<forall>a \<in> set recs. \<exists>i<length pool. 1 < lrs ! i \<and> a \<in> set (active_addons_of (pool ! i)))"
proof -
  from init_Inr [OF assms(1)] obtain c where
    pool: "donors_pool (strategy w) = Some pool" and c: "caches (strategy w) = Some c"
    and n: "num_donors c = length pool" by auto
  from recommend_Inr_loop [OF assms(2)] obtain lrs out where
    lrs: "lrs_from_scores fl (strategy w) client_data = Inr lrs"
    and bound: "\<forall>i \<in> set (argsort (map uminus lrs)). i < length lrs"
    and loop: "extend_loop (donors_pool (strategy w)) (good_donors argsort lrs) limit [] = Inr out"
    and recs: "recs = py_slice_to out limit" by blast
  have len: "length lrs = length pool"
    using lrs_from_scores_length [OF lrs c] n by simp
  from loop pool have "extend_loop (Some pool) (good_donors argsort lrs) limit [] = Inr out" by simp
  from extend_loop_prefix [OF this] obtain k where
    out: "out = donor_addons pool (take k (good_donors argsort lrs))" by auto
  have "set recs \<subseteq> set out" using recs by (auto simp: py_slice_to_def dest: in_set_takeD)
  also have "\<dots> \<subseteq> set (donor_addons pool (good_donors argsort lrs))"
    unfolding out donor_addons_def by (auto dest: in_set_takeD)
  finally have sub: "set recs \<subseteq> set (donor_addons pool (good_donors argsort lrs))" .
  have "\<forall>a \<in> set recs. \<exists>i<length pool. 1 < lrs ! i \<and> a \<in> set (active_addons_of (pool ! i))"
  proof
    fix a assume "a \<in> set recs"
    with sub obtain i where "i \<in> set (good_donors argsort lrs)" "a \<in> set (active_addons_of (pool ! i))"
      unfolding donor_addons_def by auto
    with bound len show "\<exists>i<length pool. 1 < lrs ! i \<and> a \<in> set (active_addons_of (pool ! i))"
      unfolding good_donors_def by auto
  qed
  with lrs len show ?thesis by blast
qed

lemma recommend_no_good_donor:
  assumes "lrs_from_scores fl (strategy w) client_data = Inr lrs"
    and "lrs \<noteq> []"
    and "\<forall>x \<in> set lrs. x \<le> 1"
    and "is_argsort argsort"
  shows "fst (recommend fl argsort client_data limit w) = Inr []"
proof -
  let ?idx = "argsort (map uminus lrs)"
  from assms(4) have m: "mset ?idx = mset [0..<length (map uminus lrs)]"
    unfolding is_argsort_def by blast
  from m have "set ?idx = set [0..<length (map uminus lrs)]" by (rule mset_eq_setD)
  then have bound: "\<forall>i \<in> set ?idx. i < length lrs" by simp
  from m have "length ?idx = length [0..<length (map uminus lrs)]" by (rule mset_eq_length)
  with assms(2) have ne: "?idx \<noteq> []" by auto
  then obtain i0 rest where idx: "?idx = i0 # rest" by (cases ?idx) auto
  have fi: "fancy_index lrs ?idx = Inr (map (\<lambda>i. lrs ! i) ?idx)"
    using bound by (rule fancy_index_total)
  have g: "get_similar_donors fl argsort (strategy w) client_data = Inr (map (\<lambda>i. lrs ! i) ?idx, ?idx)"
    by (simp add: get_similar_donors_def assms(1) Let_def fi)
  have "\<forall>i \<in> set ?idx. \<not> 1 < lrs ! i" using bound assms(3) by (auto simp: not_less)
  then have "filter (\<lambda>i. 1 < lrs ! i) ?idx = []" by (simp add: filter_empty_conv)
  then have sel: "boolean_index ?idx (map (\<lambda>r. 1 < r) (map (\<lambda>i. lrs ! i) ?idx)) = []"
    using boolean_index_map [of ?idx "\<lambda>i. 1 < lrs ! i"] by (simp add: comp_def)
  show ?thesis
    unfolding recommend_def g using sel idx
    by (simp add: Let_def py_slice_to_def)
qed



subsection \<open>Repeated calls and the choice of the sort\<close>












subsection \<open>The cast of the client's categorical row\<close>

lemma ex_nul_init: "init (Some [ex_nul_donor]) (Some ex_nul_curve) [] = (Inr ex_nul_sr, [])"
  by (simp add: init_def build_features_caches_def ex_nul_sr_def ex_nul_donor_def ex_nul_curve_def
      ex_defs)

lemma ex_nul_cast:
  "np_array_row (map (py_get ex_nul_client) CATEGORICAL_FEATURES)
     = Inr [PyStr ''berlin'', PyStr ''de'', PyStr ''Linux'']"
  by (simp add: np_array_row_def rstrip_nul_def ex_nul_client_def ex_nul_city_def ex_defs)

lemma ex_nul_distances: "distances exact ex_nul_sr ex_nul_client = Inr [[1/3000]]"
  unfolding distances_def Let_def ex_nul_cast
  by (simp add: ex_nul_sr_def ex_nul_client_def ex_nul_city_def ex_defs cdist_def canberra_def
      hamming_def exact_def)

lemma ex_nul_recommend:
  "fst (recommend exact argsort_stable ex_nul_client 10 ex_nul_world) = Inr []"
proof -
  have l: "lrs_from_scores exact ex_nul_sr ex_nul_client = Inr [1/9]"
    by (simp add: lrs_from_scores_def ex_nul_distances)
       (simp add: ex_nul_sr_def get_lr_def argmin_def ex_nul_curve_def exact_def)
  show ?thesis
    by (simp add: recommend_def get_similar_donors_def ex_nul_world_def l argsort_stable_def
        fancy_index_def boolean_index_def py_slice_to_def)
qed

subsection \<open>The claims\<close>

text \<open>
  Claim C1. With a donor pool that is present but empty, \<^verbatim>\<open>can_recommend\<close> should answer
  False whatever the profile holds, so that \<^verbatim>\<open>recommend\<close> is never reached. The source
  tests the pool against \<^verbatim>\<open>None\<close> only: on the recommender built from an empty donor
  list and a complete profile, \<^verbatim>\<open>can_recommend\<close> answers True, and \<^verbatim>\<open>recommend\<close> then
  raises IndexError at \<^verbatim>\<open>donor_set_ranking[0]\<close>, also when it is reached through the
  manager.
\<close>

theorem empty_pool_can_recommend_true:
  "fst (init (Some []) (Some ex_curve) []) = Inr ex_empty_sr
   \<and> donors_pool ex_empty_sr = Some []
   \<and> fst (can_recommend ex_client ex_empty_world) = True
   \<and> fst (recommend fl argsort_stable ex_client 10 ex_empty_world) = Inl IndexError
   \<and> fst (manager_recommend ex_mgr 7 10 ex_empty_world) = Inl IndexError"
  by (simp add: ex_empty_init ex_empty_can_recommend ex_empty_recommend ex_empty_world_def
      ex_empty_manager_recommend [unfolded ex_empty_world_def])
     (simp add: ex_empty_sr_def)

text \<open>
  Claim C2. For a positive limit, a list returned by \<^verbatim>\<open>recommend\<close> of the similarity
  recommender has at most \<open>limit\<close> entries; the similarity recommender therefore honours
  the limit, and so does a list returned by \<^verbatim>\<open>RecommendationManager.recommend\<close>
  whenever each of its recommenders honours it.
\<close>

theorem recommend_length_le_limit:
  assumes "0 < limit"
  shows "(\<forall>recs. fst (recommend fl argsort client_data limit w) = Inr recs
            \<longrightarrow> int (length recs) \<le> limit)
       \<and> honours_limit (similarity_recommender fl argsort)
       \<and> (\<forall>recs. (\<forall>r \<in> set (recommenders mgr). honours_limit r)
            \<longrightarrow> fst (manager_recommend mgr client_id limit w') = Inr recs
            \<longrightarrow> int (length recs) \<le> limit)"
  using assms recommend_length [of fl argsort client_data limit w]
    similarity_honours_limit [of fl argsort]
    manager_recommend_length [of mgr limit client_id w']
  by auto

theorem recommend_length_le_limit_witness:
  "(0::int) < 4
   \<and> fst (recommend exact argsort_stable ex_client 4 ex_world) = Inr [''a1'', ''a2'', ''a3'', ''b1'']
   \<and> int (length [''a1'', ''a2'', ''a3'', ''b1'']) \<le> 4
   \<and> recommenders ex_mgr = [similarity_recommender exact argsort_stable]
   \<and> honours_limit (similarity_recommender exact argsort_stable)
   \<and> fst (manager_recommend ex_mgr 7 4 ex_world) = Inr [''a1'', ''a2'', ''a3'', ''b1'']"
proof -
  have pos: "(0::int) < 4" by simp
  note inst = recommend_length_le_limit [OF pos, of exact argsort_stable ex_client ex_world ex_mgr 7 ex_world]
  have a: "fst (recommend exact argsort_stable ex_client 4 ex_world) = Inr [''a1'', ''a2'', ''a3'', ''b1'']"
    by (simp add: ex_recommend ex_world_def)
  have b: "recommenders ex_mgr = [similarity_recommender exact argsort_stable]"
    by (simp add: ex_mgr_def)
  have c: "fst (manager_recommend ex_mgr 7 4 ex_world) = Inr [''a1'', ''a2'', ''a3'', ''b1'']"
    by (simp add: ex_manager_recommend)
  from inst a b c show ?thesis by simp
qed

text \<open>
  Claim C7. \<^verbatim>\<open>can_recommend\<close> of the similarity recommender answers False, without
  raising, whenever the donor pool or the curves are absent, or one of the eight required
  attributes is missing from the profile or null on it.
\<close>

theorem can_recommend_false_when_unusable:
  "donors_pool (strategy w) = None \<or> lr_curves (strategy w) = None
     \<or> (\<exists>f \<in> set REQUIRED_FIELDS. client_data f = None \<or> client_data f = Some PyNone)
   \<Longrightarrow> fst (can_recommend client_data w) = False"
  by (auto simp: can_recommend_def Let_def list_all_iff py_get_PyNone_iff)

theorem can_recommend_false_when_unusable_witness:
  "''locale'' \<in> set REQUIRED_FIELDS
   \<and> (ex_client(''locale'' := None)) ''locale'' = None
   \<and> (ex_client(''geo_city'' \<mapsto> PyNone)) ''geo_city'' = Some PyNone
   \<and> fst (can_recommend (ex_client(''locale'' := None)) ex_world) = False
   \<and> fst (can_recommend (ex_client(''geo_city'' \<mapsto> PyNone)) ex_world) = False
   \<and> fst (can_recommend ex_client (ex_world\<lparr>strategy := ex_sr\<lparr>donors_pool := None\<rparr>\<rparr>)) = False
   \<and> fst (can_recommend ex_client ex_world) = True"
  using can_recommend_false_when_unusable [of ex_world "ex_client(''locale'' := None)"]
    can_recommend_false_when_unusable [of ex_world "ex_client(''geo_city'' \<mapsto> PyNone)"]
    can_recommend_false_when_unusable [of "ex_world\<lparr>strategy := ex_sr\<lparr>donors_pool := None\<rparr>\<rparr>" ex_client]
  by (simp add: REQUIRED_FIELDS_def CATEGORICAL_FEATURES_def ex_can_recommend ex_world_def)

text \<open>
  Claim C10. Neither \<^verbatim>\<open>can_recommend\<close> nor \<^verbatim>\<open>recommend\<close> changes the recommender: the
  donor pool, the curves and the three caches are after the call what they were before,
  on every path, the raising ones included. Over the store of list objects, the
  aggregation changes no list that existed before it (the donors' add-on lists among
  them): the result is a new object, and it holds what the loop over values computes, cut
  at \<open>limit\<close>.
\<close>

theorem methods_keep_strategy:
  "strategy (snd (can_recommend client_data w)) = strategy w
   \<and> strategy (snd (recommend fl argsort client_data limit w)) = strategy w
   \<and> (\<forall>out h'. aggregate_store ds limit h = (out, h')
        \<longrightarrow> length h < out \<and> out < length h' \<and> (\<forall>a<length h. h' ! a = h ! a)
          \<and> (\<forall>working. store_holds pool idxs ds h
                \<longrightarrow> extend_loop (Some pool) idxs limit [] = Inr working
                \<longrightarrow> h' ! out = py_slice_to working limit))"
proof (intro conjI allI impI)
  show "strategy (snd (can_recommend client_data w)) = strategy w"
    by (auto simp: can_recommend_def Let_def log_msg_def)
  show "strategy (snd (recommend fl argsort client_data limit w)) = strategy w"
    by (auto simp: recommend_def Let_def log_msg_def split: sum.splits prod.splits list.splits)
next
  fix out h'
  assume a: "aggregate_store ds limit h = (out, h')"
  from aggregate_store_frame [OF a]
  show "length h < out" and "out < length h'" by auto
  fix a' assume "a' < length h"
  with aggregate_store_frame [OF a] show "h' ! a' = h ! a'" by simp
next
  fix out h' working
  assume "aggregate_store ds limit h = (out, h')" "store_holds pool idxs ds h"
    "extend_loop (Some pool) idxs limit [] = Inr working"
  then show "h' ! out = py_slice_to working limit" by (rule aggregate_store_refines)
qed

theorem methods_keep_strategy_witness:
  "strategy (snd (can_recommend (ex_client(''locale'' := None)) ex_world)) = ex_sr
   \<and> logger (snd (can_recommend (ex_client(''locale'' := None)) ex_world))
       = [(ERROR, ''Unusable client data encountered'')]
   \<and> strategy (snd (recommend exact argsort_stable (ex_client(''locale'' := None)) 2 ex_world)) = ex_sr
   \<and> aggregate_store [2, 1] 2 ex_store =
       (4, [[''c1''], [''b1'', ''b2''], [''a1'', ''a2'', ''a3''], [''a1'', ''a2'', ''a3''],
            [''a1'', ''a2'']])
   \<and> store_holds ex_pool [2, 1] [2, 1] ex_store
   \<and> extend_loop (Some ex_pool) [2, 1] 2 [] = Inr [''a1'', ''a2'', ''a3'']
   \<and> length ex_store < 4
   \<and> [[''c1''], [''b1'', ''b2''], [''a1'', ''a2'', ''a3''], [''a1'', ''a2'', ''a3''],
        [''a1'', ''a2'']] ! 4 = py_slice_to [''a1'', ''a2'', ''a3''] 2"
proof -
  note inst = methods_keep_strategy [of "ex_client(''locale'' := None)" ex_world exact argsort_stable 2
      "[2, 1]" ex_store ex_pool "[2, 1]"]
  have lg: "logger (snd (can_recommend (ex_client(''locale'' := None)) ex_world))
          = [(ERROR, ''Unusable client data encountered'')]"
    by (simp add: can_recommend_def ex_world_def ex_sr_def ex_defs log_msg_def)
  have st: "strategy ex_world = ex_sr" by (simp add: ex_world_def)
  from inst ex_aggregate_store ex_store_holds ex_extend_loop
  have "length ex_store < 4
      \<and> [[''c1''], [''b1'', ''b2''], [''a1'', ''a2'', ''a3''], [''a1'', ''a2'', ''a3''],
          [''a1'', ''a2'']] ! 4 = py_slice_to [''a1'', ''a2'', ''a3''] 2"
    by blast
  with inst lg st ex_aggregate_store ex_store_holds ex_extend_loop show ?thesis by simp
qed

text \<open>
  Claim C4. When the fetcher has no profile for the client, the manager returns the empty
  list and leaves the world as it was: no recommender is called. Otherwise, if the \<open>k\<close>-th
  recommender is the first to answer True, the manager returns what that recommender's
  \<^verbatim>\<open>recommend\<close> returns, an empty list included, and the world it leaves is the one
  made by \<^verbatim>\<open>can_recommend\<close> of the recommenders \<open>0..k\<close> in order, the log line of the
  selection, \<^verbatim>\<open>recommend\<close> of the \<open>k\<close>-th and the log line for an empty list: no later
  recommender is called. If none answers True, every recommender has been asked once and
  the empty list is returned.
\<close>

theorem manager_recommend_first_match:
  "(profile_fetcher mgr client_id = None
      \<longrightarrow> manager_recommend mgr client_id limit w = (Inr [], w))
   \<and> (\<forall>client_info k.
        profile_fetcher mgr client_id = Some client_info \<and> k < length (recommenders mgr)
        \<and> (\<forall>j<k. \<not> answer (recommenders mgr) client_info w j)
        \<and> answer (recommenders mgr) client_info w k
      \<longrightarrow> manager_recommend mgr client_id limit w =
            noting_empty (r_recommend (recommenders mgr ! k) client_info limit
              (log_msg INFO ''Recommender selected''
                 (asked (take (Suc k) (recommenders mgr)) client_info w)))
          \<and> fst (manager_recommend mgr client_id limit w) =
            fst (r_recommend (recommenders mgr ! k) client_info limit
              (log_msg INFO ''Recommender selected''
                 (asked (take (Suc k) (recommenders mgr)) client_info w))))
   \<and> (\<forall>client_info.
        profile_fetcher mgr client_id = Some client_info
        \<and> (\<forall>j<length (recommenders mgr). \<not> answer (recommenders mgr) client_info w j)
      \<longrightarrow> manager_recommend mgr client_id limit w =
            (Inr [], log_msg INFO ''No recommender can recommend addons''
                       (asked (recommenders mgr) client_info w)))"
proof (intro conjI allI impI)
  assume "profile_fetcher mgr client_id = None"
  then show "manager_recommend mgr client_id limit w = (Inr [], w)"
    by (simp add: manager_recommend_def)
next
  fix client_info k
  assume a: "profile_fetcher mgr client_id = Some client_info \<and> k < length (recommenders mgr)
        \<and> (\<forall>j<k. \<not> answer (recommenders mgr) client_info w j)
        \<and> answer (recommenders mgr) client_info w k"
  then have "dispatch (recommenders mgr) client_info limit w =
     noting_empty (r_recommend (recommenders mgr ! k) client_info limit
       (log_msg INFO ''Recommender selected'' (asked (take (Suc k) (recommenders mgr)) client_info w)))"
    using dispatch_selected by blast
  with a show m: "manager_recommend mgr client_id limit w =
            noting_empty (r_recommend (recommenders mgr ! k) client_info limit
              (log_msg INFO ''Recommender selected''
                 (asked (take (Suc k) (recommenders mgr)) client_info w)))"
    by (simp add: manager_recommend_def)
  then show "fst (manager_recommend mgr client_id limit w) =
            fst (r_recommend (recommenders mgr ! k) client_info limit
              (log_msg INFO ''Recommender selected''
                 (asked (take (Suc k) (recommenders mgr)) client_info w)))"
    by (simp add: noting_empty_def)
next
  fix client_info
  assume a: "profile_fetcher mgr client_id = Some client_info
        \<and> (\<forall>j<length (recommenders mgr). \<not> answer (recommenders mgr) client_info w j)"
  then show "manager_recommend mgr client_id limit w =
            (Inr [], log_msg INFO ''No recommender can recommend addons''
                       (asked (recommenders mgr) client_info w))"
    using dispatch_none [of "recommenders mgr" client_info w limit]
    by (simp add: manager_recommend_def)
qed

theorem manager_recommend_first_match_witness:
  "profile_fetcher ex_spy_mgr 8 = None
   \<and> manager_recommend ex_spy_mgr 8 4 \<lparr>logger = []\<rparr> = (Inr [], \<lparr>logger = []\<rparr>)
   \<and> profile_fetcher ex_spy_mgr 7 = Some ex_client
   \<and> \<not> answer (recommenders ex_spy_mgr) ex_client \<lparr>logger = []\<rparr> 0
   \<and> answer (recommenders ex_spy_mgr) ex_client \<lparr>logger = []\<rparr> 1
   \<and> manager_recommend ex_spy_mgr 7 4 \<lparr>logger = []\<rparr> =
       (Inr [], \<lparr>logger = [(INFO, ''A.can_recommend''), (INFO, ''B.can_recommend''),
                          (INFO, ''Recommender selected''), (INFO, ''B.recommend''),
                          (INFO, ''No recommendations'')]\<rparr>)
   \<and> manager_recommend ex_spy_mgr 7 4 \<lparr>logger = []\<rparr> =
       noting_empty (r_recommend (recommenders ex_spy_mgr ! 1) ex_client 4
         (log_msg INFO ''Recommender selected''
            (asked (take 2 (recommenders ex_spy_mgr)) ex_client \<lparr>logger = []\<rparr>)))"
proof -
  note inst = manager_recommend_first_match [of ex_spy_mgr 7 4 "\<lparr>logger = []\<rparr>"]
  note inst8 = manager_recommend_first_match [of ex_spy_mgr 8 4 "\<lparr>logger = []\<rparr>"]
  have f8: "profile_fetcher ex_spy_mgr 8 = None" by (simp add: ex_spy_mgr_def)
  have f7: "profile_fetcher ex_spy_mgr 7 = Some ex_client" by (simp add: ex_spy_mgr_def)
  have a0: "\<not> answer (recommenders ex_spy_mgr) ex_client \<lparr>logger = []\<rparr> 0"
    by (simp add: answer_def ex_spy_mgr_def ex_spy_def)
  have a1: "answer (recommenders ex_spy_mgr) ex_client \<lparr>logger = []\<rparr> 1"
    by (simp add: answer_def ex_spy_mgr_def ex_spy_def)
  have len: "1 < length (recommenders ex_spy_mgr)" by (simp add: ex_spy_mgr_def)
  from inst8 f8 have r8: "manager_recommend ex_spy_mgr 8 4 \<lparr>logger = []\<rparr> = (Inr [], \<lparr>logger = []\<rparr>)"
    by blast
  from inst f7 a0 a1 len have r7: "manager_recommend ex_spy_mgr 7 4 \<lparr>logger = []\<rparr> =
       noting_empty (r_recommend (recommenders ex_spy_mgr ! 1) ex_client 4
         (log_msg INFO ''Recommender selected''
            (asked (take (Suc 1) (recommenders ex_spy_mgr)) ex_client \<lparr>logger = []\<rparr>)))"
    by auto
  have s: "Suc 1 = 2" by simp
  show ?thesis using f8 r8 f7 a0 a1 ex_spy_run r7 unfolding s by simp
qed

text \<open>
  Claim C6. \<^verbatim>\<open>get_lr\<close> should read the curve at the entry whose score is closest to
  the input in absolute difference. The source compares the differences as doubles,
  \<^verbatim>\<open>abs(score - self.lr_curves_cache)\<close>, and rounding can make a farther entry tie with
  the closest one: for the score 1 and the curve of the scores \<open>0\<close> and \<open>1 / 2 ^ 60\<close> both
  differences are the double 1, \<^verbatim>\<open>np.argmin\<close> takes the first, and \<^verbatim>\<open>get_lr\<close> returns
  \<open>1/4\<close>, where the closest entry gives 3.
\<close>

theorem get_lr_reads_farther_entry:
  "fst (init (Some []) (Some ex_round_curve) []) = Inr ex_round_sr
   \<and> \<bar>1 - fst (ex_round_curve ! 1)\<bar> < \<bar>1 - fst (ex_round_curve ! 0) :: real\<bar>
   \<and> fst (snd (ex_round_curve ! 1)) / snd (snd (ex_round_curve ! 1)) = (3 :: real)
   \<and> get_lr round_double ex_round_sr 1 = Inr (1/4)
   \<and> get_lr round_double ex_round_sr 1
       \<noteq> Inr (fst (snd (ex_round_curve ! 1)) / snd (snd (ex_round_curve ! 1)))"
  by (simp add: ex_round_init ex_round_get_lr) (simp add: ex_round_curve_def)


text \<open>
  Claim C6, amended. For a recommender built from a non-empty curve, any score and any
  rounding, \<^verbatim>\<open>get_lr\<close> reads the curve at the entry \<open>k\<close> whose computed difference
  \<open>|fl (score - s)|\<close> is the smallest, the earliest one among the entries whose computed
  differences are equal, whatever the order of the curve, and returns the rounded quotient
  of numerator and denominator there; a zero denominator at that entry, which the curve's
  invariant excludes, is a ZeroDivisionError.
\<close>

theorem get_lr_nearest_computed_entry:
  assumes "fst (init (Some pool) (Some curves) lg) = Inr sr" and "curves \<noteq> []"
  shows "\<exists>k<length curves.
           (\<forall>j<length curves. \<bar>fl (score - fst (curves ! k))\<bar> \<le> \<bar>fl (score - fst (curves ! j))\<bar>)
         \<and> (\<forall>j<k. \<bar>fl (score - fst (curves ! k))\<bar> < \<bar>fl (score - fst (curves ! j))\<bar>)
         \<and> get_lr fl sr score =
             (if snd (snd (curves ! k)) = 0 then Inl ZeroDivisionError
              else Inr (fl (fst (snd (curves ! k)) / snd (snd (curves ! k)))))"
proof -
  from init_Inr [OF assms(1)] obtain c where
    lc: "lr_curves sr = Some curves" and c: "caches sr = Some c"
    and cache: "lr_curves_cache c = map fst curves" by auto
  let ?ys = "map (\<lambda>s. \<bar>fl (score - s)\<bar>) (map fst curves)"
  have "?ys \<noteq> []" using assms(2) by simp
  from argmin_spec [OF this] obtain k where
    k: "argmin ?ys = Inr k" "k < length ?ys" "\<forall>j<length ?ys. ?ys ! k \<le> ?ys ! j"
       "\<forall>j<k. ?ys ! k < ?ys ! j" by blast
  have klen: "k < length curves" using k(2) by simp
  have "\<forall>j<length curves. \<bar>fl (score - fst (curves ! k))\<bar> \<le> \<bar>fl (score - fst (curves ! j))\<bar>"
    using k(3) klen by simp
  moreover have "\<forall>j<k. \<bar>fl (score - fst (curves ! k))\<bar> < \<bar>fl (score - fst (curves ! j))\<bar>"
    using k(4) klen by simp
  moreover have "get_lr fl sr score =
             (if snd (snd (curves ! k)) = 0 then Inl ZeroDivisionError
              else Inr (fl (fst (snd (curves ! k)) / snd (snd (curves ! k)))))"
    using k(1) klen by (simp add: get_lr_def c lc cache Let_def)
  ultimately show ?thesis using klen by blast
qed

theorem get_lr_nearest_computed_entry_witness:
  "fst (init (Some []) (Some ex_round_curve) []) = Inr ex_round_sr
   \<and> ex_round_curve \<noteq> []
   \<and> \<bar>round_double (1 - fst (ex_round_curve ! 0))\<bar> = \<bar>round_double (1 - fst (ex_round_curve ! 1))\<bar>
   \<and> get_lr round_double ex_round_sr 1
       = Inr (round_double (fst (snd (ex_round_curve ! 0)) / snd (snd (ex_round_curve ! 0))))"
proof -
  have h1: "fst (init (Some []) (Some ex_round_curve) []) = Inr ex_round_sr"
    by (simp add: ex_round_init)
  have h2: "ex_round_curve \<noteq> []" by (simp add: ex_round_curve_def)
  note inst = get_lr_nearest_computed_entry [OF h1 h2, of round_double 1]
  have tie: "\<bar>round_double (1 - fst (ex_round_curve ! 0))\<bar>
               = \<bar>round_double (1 - fst (ex_round_curve ! 1))\<bar>"
    by (simp add: ex_round_curve_def round_double_1 round_double_below_1_nf)
  have q: "round_double (fst (snd (ex_round_curve ! 0)) / snd (snd (ex_round_curve ! 0))) = 1/4"
    by (simp add: ex_round_curve_def round_double_quarter)
  from inst h1 h2 tie q ex_round_get_lr show ?thesis by simp
qed

text \<open>
  Claim C3. For a recommender built from a donor pool and curves: every add-on in a list
  that \<^verbatim>\<open>recommend\<close> returns is an add-on of a donor whose computed likelihood ratio is
  above 1; and when the pool has a donor and no donor's likelihood ratio is above 1,
  \<^verbatim>\<open>recommend\<close> returns the empty list and does not raise. (An empty pool is the matter
  of \<^verbatim>\<open>can_recommend\<close>, claim C1.)
\<close>

theorem only_good_donors_contribute:
  assumes "fst (init (Some pool) (Some curves) lg) = Inr (strategy w)"
  shows "(\<forall>recs. fst (recommend fl argsort client_data limit w) = Inr recs
            \<longrightarrow> (\<exists>lrs. lrs_from_scores fl (strategy w) client_data = Inr lrs
                  \<and> length lrs = length pool
                  \<and> (\<forall>a \<in> set recs. \<exists>i<length pool.
                        1 < lrs ! i \<and> a \<in> set (active_addons_of (pool ! i)))))
       \<and> (\<forall>lrs. is_argsort argsort \<and> lrs_from_scores fl (strategy w) client_data = Inr lrs
                \<and> lrs \<noteq> [] \<and> (\<forall>x \<in> set lrs. x \<le> 1)
            \<longrightarrow> fst (recommend fl argsort client_data limit w) = Inr [])"
  using recommend_addons_from_good_donors [OF assms, of fl argsort client_data limit]
    recommend_no_good_donor [of fl w client_data _ argsort limit]
  by blast

theorem only_good_donors_contribute_witness:
  "fst (init (Some ex_pool) (Some ex_curve) []) = Inr (strategy ex_world)
   \<and> fst (recommend exact argsort_stable ex_client 4 ex_world) = Inr [''a1'', ''a2'', ''a3'', ''b1'']
   \<and> lrs_from_scores exact (strategy ex_world) ex_client = Inr [1/9, 3, 9]
   \<and> active_addons_of (ex_pool ! 0) = [''c1'']
   \<and> ''c1'' \<notin> set [''a1'', ''a2'', ''a3'', ''b1'']
   \<and> fst (init (Some [ex_donor_c]) (Some ex_curve) []) = Inr (strategy ex_far_world)
   \<and> is_argsort argsort_stable
   \<and> lrs_from_scores exact (strategy ex_far_world) ex_client = Inr [1/9]
   \<and> fst (recommend exact argsort_stable ex_client 4 ex_far_world) = Inr []"
proof -
  have st: "strategy ex_world = ex_sr" by (simp add: ex_world_def)
  have stf: "strategy ex_far_world = ex_far_sr" by (simp add: ex_far_world_def)
  have h1: "fst (init (Some ex_pool) (Some ex_curve) []) = Inr (strategy ex_world)"
    by (simp add: ex_init st)
  have h2: "fst (init (Some [ex_donor_c]) (Some ex_curve) []) = Inr (strategy ex_far_world)"
    by (simp add: ex_far_init stf)
  note inst = only_good_donors_contribute [OF h1, of exact argsort_stable ex_client 4]
  note inst_far = only_good_donors_contribute [OF h2, of exact argsort_stable ex_client 4]
  have l: "lrs_from_scores exact (strategy ex_far_world) ex_client = Inr [1/9]"
    by (simp add: stf ex_far_lrs)
  from inst_far is_argsort_stable l
  have far: "fst (recommend exact argsort_stable ex_client 4 ex_far_world) = Inr []" by auto
  have c1: "active_addons_of (ex_pool ! 0) = [''c1'']"
    by (simp add: active_addons_of_def ex_pool_def ex_donor_c_def)
  from inst h1 h2 far l c1 is_argsort_stable show ?thesis
    by (simp add: ex_recommend st ex_lrs)
qed





text \<open>
  Claim C5. The composite distance should be (canberra + 0.001) times the Hamming
  distance of the raw, uncast categorical values. The donors' categorical rows are
  stored with \<^verbatim>\<open>dtype="object"\<close>, but \<^verbatim>\<open>get_similar_donors\<close> builds the client's row
  with \<^verbatim>\<open>np.array\<close> and no dtype, which casts it to fixed-width strings and drops a
  trailing NUL character. For a client and a donor with the same eight raw values, whose
  city name ends in NUL, the raw Hamming distance is 0 and the claim's distance is 0; the
  source compares the donor's raw row with the client's cast row, finds one of three
  positions different, computes the distance 1/3000, reads the likelihood ratio 1/9
  where the distance 0 would read 9, and recommends nothing.
\<close>

theorem client_categories_are_cast:
  "map (py_get ex_nul_client) CATEGORICAL_FEATURES = map (py_get ex_nul_donor) CATEGORICAL_FEATURES
   \<and> map (py_get ex_nul_client) CONTINUOUS_FEATURES = map (py_get ex_nul_donor) CONTINUOUS_FEATURES
   \<and> fst (init (Some [ex_nul_donor]) (Some ex_nul_curve) []) = Inr ex_nul_sr
   \<and> fst (can_recommend ex_nul_client ex_nul_world) = True
   \<and> np_array_row (map (py_get ex_nul_client) CATEGORICAL_FEATURES)
       = Inr [PyStr ''berlin'', PyStr ''de'', PyStr ''Linux'']
   \<and> hamming fl (map (py_get ex_nul_donor) CATEGORICAL_FEATURES)
        [PyStr ''berlin'', PyStr ''de'', PyStr ''Linux''] = fl (1/3)
   \<and> hamming fl (map (py_get ex_nul_donor) CATEGORICAL_FEATURES)
        (map (py_get ex_nul_client) CATEGORICAL_FEATURES) = fl 0
   \<and> distances exact ex_nul_sr ex_nul_client = Inr [[1/3000]]
   \<and> fst (recommend exact argsort_stable ex_nul_client 10 ex_nul_world) = Inr []"
proof -
  have c1: "map (py_get ex_nul_client) CATEGORICAL_FEATURES = map (py_get ex_nul_donor) CATEGORICAL_FEATURES"
    by (simp add: ex_nul_client_def ex_nul_donor_def ex_defs)
  have c2: "map (py_get ex_nul_client) CONTINUOUS_FEATURES = map (py_get ex_nul_donor) CONTINUOUS_FEATURES"
    by (simp add: ex_nul_client_def ex_nul_donor_def ex_defs)
  have c3: "fst (init (Some [ex_nul_donor]) (Some ex_nul_curve) []) = Inr ex_nul_sr"
    by (simp add: ex_nul_init)
  have c4: "fst (can_recommend ex_nul_client ex_nul_world) = True"
    by (simp add: can_recommend_def ex_nul_world_def ex_nul_sr_def ex_nul_client_def ex_defs)
  have c5: "hamming fl (map (py_get ex_nul_donor) CATEGORICAL_FEATURES)
        [PyStr ''berlin'', PyStr ''de'', PyStr ''Linux''] = fl (1/3)"
    by (simp add: hamming_def ex_nul_donor_def ex_nul_city_def ex_defs)
  have c6: "hamming fl (map (py_get ex_nul_donor) CATEGORICAL_FEATURES)
        (map (py_get ex_nul_client) CATEGORICAL_FEATURES) = fl 0"
    by (simp add: hamming_def ex_nul_donor_def ex_nul_client_def ex_nul_city_def ex_defs)
  show ?thesis
    by (intro conjI) (fact c1 c2 c3 c4 ex_nul_cast c5 c6 ex_nul_distances ex_nul_recommend)+
qed

end
